theory Spec2Isabelle
  imports Complex_Main
begin

section \<open>The live audio bridge: data model\<close>

text \<open>
  The class \<open>GeminiLiveService\<close> of \<open>src/services/geminiLiveService.ts\<close> is embedded as a
  record of its fields together with one function per method or connection handler.
  Browser and SDK objects (media stream, audio contexts, graph nodes, buffer sources, the
  session and its promise) are opaque handles; a nullable field is an \<open>option\<close>.
  Every call the class makes on such an object, and every callback it invokes, is written
  to an effect list in program order, with the receiver and the arguments of the call, so
  that a handler maps a state to the new state and the effects it performed. What such a
  call returns (a new handle, a clock reading, the outcome of an awaited operation) is an
  input of the handler.

  A JavaScript string is a list of code units; all literals of the source are Latin-1, so
  each code unit is one \<open>char\<close>. Times are seconds on the output context's clock, taken
  as real numbers.
\<close>

type_synonym handle = nat

datatype speaker = Victime | IA

text \<open>A thrown or rejected JavaScript value: an instance of \<open>Error\<close> with its message, or
  any other value.\<close>

datatype thrown = ErrorObject string | OtherValue

text \<open>The four members of the interface \<open>Callbacks\<close>, as invocations.\<close>

datatype callback =
    onTranscriptUpdate string bool speaker
  | onTurnComplete speaker
  | onError string
  | onClose

text \<open>An \<open>AudioBuffer\<close>: its length in sample frames and its sample rate. The Web Audio
  attribute \<open>duration\<close> is their quotient, in seconds.\<close>

record audio_buffer =
  frames :: nat
  sampleRate :: nat

definition duration :: "audio_buffer \<Rightarrow> real" where
  "duration b = real (frames b) / real (sampleRate b)"

datatype modality = AUDIO | TEXT | IMAGE

record live_config =
  responseModalities :: "modality list"
  inputAudioTranscription :: bool
  outputAudioTranscription :: bool
  systemInstruction :: string

record connect_params =
  model :: string
  config :: live_config

datatype effect =
    Callback callback
  | GetUserMedia
  | NewAudioContext nat
  | LiveConnect connect_params
  | CreateMediaStreamSource handle handle
  | CreateScriptProcessor handle nat nat nat
  | SetOnAudioProcess handle
  | ConnectNode handle handle
  | ConnectDestination handle handle
  | Disconnect handle
  | StopTracks handle
  | CloseContext handle
  | CloseSession handle
  | CreateBufferSource handle
  | SetBuffer handle audio_buffer
  | ConnectSource handle handle
  | AddEndedListener handle
  | StartSource handle real
  | StopSource handle

text \<open>The fields of the class (lines 13 to 27). \<open>outputSources\<close> is a JavaScript
  \<open>Set\<close>: a duplicate-free list in insertion order.\<close>

record service =
  session :: "handle option"
  sessionPromise :: "handle option"
  mediaStream :: "handle option"
  inputAudioContext :: "handle option"
  outputAudioContext :: "handle option"
  scriptProcessor :: "handle option"
  sourceNode :: "handle option"
  outputSources :: "handle list"
  nextStartTime :: real
  currentInputTranscription :: string
  currentOutputTranscription :: string

definition initial :: service where
  "initial =
     \<lparr>session = None, sessionPromise = None, mediaStream = None,
      inputAudioContext = None, outputAudioContext = None,
      scriptProcessor = None, sourceNode = None,
      outputSources = [], nextStartTime = 0,
      currentInputTranscription = [], currentOutputTranscription = []\<rparr>"

text \<open>The constructor (lines 29 to 34): it throws when the environment has no API key, an
  empty one included; otherwise the fields have their initial values.\<close>

definition construct :: "string option \<Rightarrow> thrown + service" where
  "construct api_key =
     (case api_key of
        None \<Rightarrow> Inl (ErrorObject ''API_KEY environment variable not set.'')
      | Some k \<Rightarrow>
          (if k = [] then Inl (ErrorObject ''API_KEY environment variable not set.'')
           else Inr initial))"

text \<open>\<open>Set.add\<close> and \<open>Set.delete\<close>.\<close>

definition set_add :: "handle \<Rightarrow> handle list \<Rightarrow> handle list" where
  "set_add x xs = (if x \<in> set xs then xs else xs @ [x])"

definition set_delete :: "handle \<Rightarrow> handle list \<Rightarrow> handle list" where
  "set_delete x xs = filter (\<lambda>y. y \<noteq> x) xs"

section \<open>Teardown\<close>

text \<open>\<open>obj?.m()\<close>: the call is made when the field is not null.\<close>

definition opt_call :: "(handle \<Rightarrow> effect) \<Rightarrow> handle option \<Rightarrow> effect list" where
  "opt_call f h = (case h of None \<Rightarrow> [] | Some x \<Rightarrow> [f x])"

text \<open>\<open>cleanup\<close> (lines 159 to 178), statement by statement: the effects in the order of
  the calls, the fields as the assignments leave them.\<close>

definition cleanup :: "service \<Rightarrow> service \<times> effect list" where
  "cleanup s =
     (s\<lparr>scriptProcessor := None, sourceNode := None, mediaStream := None,
        inputAudioContext := None, outputAudioContext := None,
        outputSources := [], session := None, sessionPromise := None\<rparr>,
      opt_call Disconnect (scriptProcessor s) @
      opt_call Disconnect (sourceNode s) @
      opt_call StopTracks (mediaStream s) @
      opt_call CloseContext (inputAudioContext s) @
      opt_call CloseContext (outputAudioContext s) @
      map StopSource (outputSources s))"

text \<open>The state in which every resource field is null and the live set is empty.\<close>

definition torn_down :: "service \<Rightarrow> bool" where
  "torn_down s \<longleftrightarrow>
     mediaStream s = None \<and> sourceNode s = None \<and> scriptProcessor s = None \<and>
     inputAudioContext s = None \<and> outputAudioContext s = None \<and>
     outputSources s = [] \<and> session s = None \<and> sessionPromise s = None"

text \<open>\<open>stopSession\<close> (lines 154 to 157).\<close>

definition stopSession :: "service \<Rightarrow> service \<times> effect list" where
  "stopSession s =
     (let (s', es) = cleanup s in (s', opt_call CloseSession (session s) @ es))"

section \<open>Inbound messages\<close>

text \<open>
  The part of a \<open>LiveServerMessage\<close> that \<open>handleServerMessage\<close> reads. An optional
  object is an \<open>option\<close>; of a transcription object only its \<open>text\<close> is read, of a part
  only \<open>inlineData?.data\<close>; an absent boolean reads as false.
\<close>

record part =
  inlineData :: "string option"

record server_content =
  inputTranscription :: "string option"
  outputTranscription :: "string option"
  turnComplete :: bool
  interrupted :: bool
  modelTurn :: "part list option"

record server_message =
  serverContent :: "server_content option"

text \<open>\<open>message.serverContent?.f\<close> for an optional and for a boolean member.\<close>

definition content_field :: "(server_content \<Rightarrow> 'a option) \<Rightarrow> server_message \<Rightarrow> 'a option" where
  "content_field f m = (case serverContent m of None \<Rightarrow> None | Some c \<Rightarrow> f c)"

definition content_flag :: "(server_content \<Rightarrow> bool) \<Rightarrow> server_message \<Rightarrow> bool" where
  "content_flag f m = (case serverContent m of None \<Rightarrow> False | Some c \<Rightarrow> f c)"

text \<open>Line 135: \<open>message.serverContent?.modelTurn?.parts[0]?.inlineData?.data\<close>.\<close>

definition base64Audio :: "server_message \<Rightarrow> string option" where
  "base64Audio m =
     (case content_field modelTurn m of
        None \<Rightarrow> None
      | Some ps \<Rightarrow> (case ps of [] \<Rightarrow> None | p # _ \<Rightarrow> inlineData p))"

text \<open>
  What the surroundings supply while one message is handled: the reading of
  \<open>outputAudioContext.currentTime\<close> at line 137, what \<open>decodeAudioData\<close> (of
  \<open>utils/audio\<close>) resolves to for the payload, \<open>None\<close> when it rejects, and the node that
  \<open>createBufferSource\<close> returns.
\<close>

record msg_env =
  currentTime :: real
  decoded :: "audio_buffer option"
  new_source :: handle

text \<open>How a handler ends: it runs to its end, or an exception (for an \<open>async\<close> handler, a
  rejection) ends it.\<close>

datatype outcome = Done | Failed

text \<open>Lines 104 to 108 and 110 to 114: a partial transcript is appended to the buffer of
  its speaker and the whole buffer is reported.\<close>

definition on_inputTranscription :: "server_message \<Rightarrow> service \<Rightarrow> service \<times> effect list" where
  "on_inputTranscription m s =
     (case content_field inputTranscription m of
        None \<Rightarrow> (s, [])
      | Some txt \<Rightarrow>
          (let cur = currentInputTranscription s @ txt
           in (s\<lparr>currentInputTranscription := cur\<rparr>,
               [Callback (onTranscriptUpdate cur False Victime)])))"

definition on_outputTranscription :: "server_message \<Rightarrow> service \<Rightarrow> service \<times> effect list" where
  "on_outputTranscription m s =
     (case content_field outputTranscription m of
        None \<Rightarrow> (s, [])
      | Some txt \<Rightarrow>
          (let cur = currentOutputTranscription s @ txt
           in (s\<lparr>currentOutputTranscription := cur\<rparr>,
               [Callback (onTranscriptUpdate cur False IA)])))"

text \<open>Lines 116 to 125. A string is truthy when it is not empty.\<close>

definition on_turnComplete :: "server_message \<Rightarrow> service \<Rightarrow> service \<times> effect list" where
  "on_turnComplete m s =
     (if content_flag turnComplete m then
        (let (s1, e1) =
               (if currentInputTranscription s \<noteq> []
                then (s\<lparr>currentInputTranscription := []\<rparr>, [Callback (onTurnComplete Victime)])
                else (s, []));
             (s2, e2) =
               (if currentOutputTranscription s1 \<noteq> []
                then (s1\<lparr>currentOutputTranscription := []\<rparr>, [Callback (onTurnComplete IA)])
                else (s1, []))
         in (s2, e1 @ e2))
      else (s, []))"

text \<open>
  Lines 128 to 131: the loop over the live set. Each visited source is stopped and deleted
  from the set; a \<open>Set\<close> iterator is not disturbed by the deletion of the element it is
  at, so the loop visits the sources that were in the set when it began, in order.
\<close>

fun stop_each :: "handle list \<Rightarrow> service \<Rightarrow> service \<times> effect list" where
  "stop_each [] s = (s, [])"
| "stop_each (x # xs) s =
     (let (s', es) = stop_each xs (s\<lparr>outputSources := set_delete x (outputSources s)\<rparr>)
      in (s', StopSource x # es))"

text \<open>Lines 127 to 133.\<close>

definition on_interrupted :: "server_message \<Rightarrow> service \<Rightarrow> service \<times> effect list" where
  "on_interrupted m s =
     (if content_flag interrupted m then
        (let (s', es) = stop_each (outputSources s) s
         in (s'\<lparr>nextStartTime := 0\<rparr>, es))
      else (s, []))"

text \<open>Lines 104 to 133 in sequence: everything before the audio payload is looked at.\<close>

definition receive :: "server_message \<Rightarrow> service \<Rightarrow> service \<times> effect list" where
  "receive m s =
     (let (s1, e1) = on_inputTranscription m s;
          (s2, e2) = on_outputTranscription m s1;
          (s3, e3) = on_turnComplete m s2;
          (s4, e4) = on_interrupted m s3
      in (s4, e1 @ e2 @ e3 @ e4))"

text \<open>
  Lines 135 to 137, up to the \<open>await\<close>: when there is a non-empty payload and an output
  context, the clock is raised to the context's current time and decoding is begun. The
  result says whether the branch was taken.
\<close>

definition audio_begin :: "real \<Rightarrow> server_message \<Rightarrow> service \<Rightarrow> bool \<times> service" where
  "audio_begin now m s =
     (case base64Audio m of
        None \<Rightarrow> (False, s)
      | Some d \<Rightarrow>
          (if d \<noteq> [] \<and> outputAudioContext s \<noteq> None
           then (True, s\<lparr>nextStartTime := max (nextStartTime s) now\<rparr>)
           else (False, s)))"

text \<open>
  Lines 139 to 150, from the point where the \<open>await\<close> resumes. A rejected decode rejects
  the handler; so does the call of \<open>createBufferSource\<close> on a context field that has
  become null in the meantime. Otherwise the source is created, started at
  \<open>nextStartTime\<close>, the clock advanced by the buffer's duration and the source added to
  the live set.
\<close>

definition audio_finish ::
  "audio_buffer option \<Rightarrow> handle \<Rightarrow> service \<Rightarrow> outcome \<times> service \<times> effect list" where
  "audio_finish dec src s =
     (case dec of
        None \<Rightarrow> (Failed, s, [])
      | Some buf \<Rightarrow>
          (case outputAudioContext s of
             None \<Rightarrow> (Failed, s, [])
           | Some ctx \<Rightarrow>
               (Done,
                s\<lparr>nextStartTime := nextStartTime s + duration buf,
                  outputSources := set_add src (outputSources s)\<rparr>,
                [CreateBufferSource ctx, SetBuffer src buf, ConnectSource src ctx,
                 AddEndedListener src, StartSource src (nextStartTime s)])))"

text \<open>The listener of lines 144 to 146, run when a source reports that it has ended.\<close>

definition on_ended :: "handle \<Rightarrow> service \<Rightarrow> service" where
  "on_ended src s = s\<lparr>outputSources := set_delete src (outputSources s)\<rparr>"

text \<open>Lines 135 to 151 when nothing else runs while the payload is decoded.\<close>

definition playback :: "msg_env \<Rightarrow> server_message \<Rightarrow> service \<Rightarrow> outcome \<times> service \<times> effect list" where
  "playback env m s =
     (let (go, s1) = audio_begin (currentTime env) m s
      in if go then audio_finish (decoded env) (new_source env) s1 else (Done, s1, []))"

text \<open>\<open>handleServerMessage\<close> (lines 103 to 152).\<close>

definition handleServerMessage ::
  "msg_env \<Rightarrow> server_message \<Rightarrow> service \<Rightarrow> outcome \<times> service \<times> effect list" where
  "handleServerMessage env m s =
     (let (s1, e1) = receive m s;
          (r, s2, e2) = playback env m s1
      in (r, s2, e1 @ e2))"

text \<open>A sequence of messages handled one after the other, each with its surroundings. A
  rejected handler does not keep the next message from being handled.\<close>

fun handle_all :: "(server_message \<times> msg_env) list \<Rightarrow> service \<Rightarrow> service \<times> effect list" where
  "handle_all [] s = (s, [])"
| "handle_all ((m, env) # rest) s =
     (let (r, s1, e1) = handleServerMessage env m s;
          (s2, e2) = handle_all rest s1
      in (s2, e1 @ e2))"

text \<open>Messages with a single member set, for stating properties.\<close>

definition no_content :: server_content where
  "no_content =
     \<lparr>inputTranscription = None, outputTranscription = None, turnComplete = False,
      interrupted = False, modelTurn = None\<rparr>"

definition with_content :: "server_content \<Rightarrow> server_message" where
  "with_content c = \<lparr>serverContent = Some c\<rparr>"

definition audio_message :: "string \<Rightarrow> server_message" where
  "audio_message d = with_content (no_content\<lparr>modelTurn := Some [\<lparr>inlineData = Some d\<rparr>]\<rparr>)"

definition quiet_env :: msg_env where
  "quiet_env = \<lparr>currentTime = 0, decoded = None, new_source = 0\<rparr>"

section \<open>Session control\<close>

text \<open>The argument of \<open>ai.live.connect\<close> (lines 44 to 65). An empty transcription object
  \<open>{}\<close> switches the transcription on.\<close>

definition fixed_instruction :: string where
  "fixed_instruction =
     ''Vous '' @ [CHR 0xEA] @ ''tes une intelligence artificielle d'' @ [CHR 0x27] @
     ''assistance aux victimes, con'' @ [CHR 0xE7] @ ''ue pour recueillir les d'' @
     [CHR 0xE9] @ ''positions dans les cas de violences conjugales. Votre r'' @
     [CHR 0xF4] @ ''le est d'' @ [CHR 0x27] @ ''agir comme un enqu'' @ [CHR 0xEA] @
     ''teur professionnel, calme et empathique. Votre objectif principal '' @
     ''est de constituer un rapport clair et pr'' @ [CHR 0xE9] @
     ''cis pour les forces de l'' @ [CHR 0x27] @ ''ordre.'' @ [CHR 0x0A] @ [CHR 0x0A] @
     ''Votre d'' @ [CHR 0xE9] @ ''marche doit '' @ [CHR 0xEA] @ ''tre structur'' @
     [CHR 0xE9] @ ''e :'' @ [CHR 0x0A] @
     ''1.  **Introduction et Mise en Confiance :** Commencez par vous pr'' @
     [CHR 0xE9] @
     ''senter et rassurer la victime. Expliquez que la conversation est c'' @
     ''onfidentielle et a pour but de l'' @ [CHR 0x27] @ ''aider.'' @ [CHR 0x0A] @
     ''2.  **R'' @ [CHR 0xE9] @ ''cit Libre :** Invitez la victime '' @ [CHR 0xE0] @
     '' raconter ce qui s'' @ [CHR 0x27] @ ''est pass'' @ [CHR 0xE9] @
     '' avec ses propres mots.'' @ [CHR 0x0A] @ ''3.  **Questions de Pr'' @
     [CHR 0xE9] @ ''cision :** Une fois le r'' @ [CHR 0xE9] @ ''cit initial termin'' @
     [CHR 0xE9] @ '', posez des questions m'' @ [CHR 0xE9] @
     ''thodiques pour obtenir les d'' @ [CHR 0xE9] @ ''tails essentiels :'' @
     [CHR 0x0A] @ ''    *   **Identit'' @ [CHR 0xE9] @ '' :** '' @ [CHR 0x22] @
     ''Pouvez-vous me donner le nom de la personne impliqu'' @ [CHR 0xE9] @ ''e ?'' @
     [CHR 0x22] @ [CHR 0x0A] @ ''    *   **Nature des faits :** '' @ [CHR 0x22] @
     ''Pouvez-vous d'' @ [CHR 0xE9] @ ''crire pr'' @ [CHR 0xE9] @ ''cis'' @
     [CHR 0xE9] @ ''ment les actes de violence (physique, verbale, psychologique) ?'' @
     [CHR 0x22] @ [CHR 0x0A] @ ''    *   **Date et Heure :** '' @ [CHR 0x22] @
     ''Quand exactement cela s'' @ [CHR 0x27] @ ''est-il produit ? Le jour et l'' @
     [CHR 0x27] @ ''heure si possible.'' @ [CHR 0x22] @ [CHR 0x0A] @
     ''    *   **Lieu :** '' @ [CHR 0x22] @ ''O'' @ [CHR 0xF9] @
     '' les faits ont-ils eu lieu ? Soyez aussi pr'' @ [CHR 0xE9] @
     ''cise que possible.'' @ [CHR 0x22] @ [CHR 0x0A] @ ''    *   **T'' @ [CHR 0xE9] @
     ''moins :** '' @ [CHR 0x22] @ ''Y avait-il d'' @ [CHR 0x27] @
     ''autres personnes pr'' @ [CHR 0xE9] @ ''sentes ? Si oui, qui ?'' @ [CHR 0x22] @
     [CHR 0x0A] @ ''    *   **Ant'' @ [CHR 0xE9] @ ''c'' @ [CHR 0xE9] @
     ''dents :** '' @ [CHR 0x22] @ ''Est-ce la premi'' @ [CHR 0xE8] @
     ''re fois que cela arrive ?'' @ [CHR 0x22] @ [CHR 0x0A] @
     ''    *   **Preuves :** '' @ [CHR 0x22] @
     ''Existe-t-il des preuves (photos, messages, certificats m'' @ [CHR 0xE9] @
     ''dicaux) ?'' @ [CHR 0x22] @ [CHR 0x0A] @
     ''4.  **Conclusion :** Remerciez la victime pour son courage et expl'' @
     ''iquez que sa d'' @ [CHR 0xE9] @ ''position va '' @ [CHR 0xEA] @
     ''tre formalis'' @ [CHR 0xE9] @ ''e dans un rapport.'' @ [CHR 0x0A] @ [CHR 0x0A] @
     ''Restez calme, ne portez aucun jugement, et guidez la conversation '' @
     ''pour qu'' @ [CHR 0x27] @ ''elle soit la plus compl'' @ [CHR 0xE8] @
     ''te possible. R'' @ [CHR 0xE9] @ ''pondez exclusivement en fran'' @ [CHR 0xE7] @
     ''ais.''"

definition connect_request :: connect_params where
  "connect_request =
     \<lparr>model = ''gemini-2.5-flash-native-audio-preview-09-2025'',
      config =
        \<lparr>responseModalities = [AUDIO],
         inputAudioTranscription = True,
         outputAudioTranscription = True,
         systemInstruction = fixed_instruction\<rparr>\<rparr>"

text \<open>
  What the surroundings supply to \<open>startSession\<close>: the outcome of \<open>getUserMedia\<close>, of the
  two \<open>AudioContext\<close> constructors, the promise that \<open>connect\<close> returns, and what that
  promise settles to.
\<close>

record start_env =
  microphone :: "thrown + handle"
  capture_context :: "thrown + handle"
  playback_context :: "thrown + handle"
  promise :: handle
  connected :: "thrown + handle"

text \<open>The \<open>catch\<close> block (lines 93 to 100).\<close>

definition start_error_message :: "thrown \<Rightarrow> string" where
  "start_error_message e =
     (case e of
        ErrorObject msg \<Rightarrow> ''Impossible de d'' @ [CHR 0xE9] @ ''marrer la session : '' @ msg
      | OtherValue \<Rightarrow>
          ''Une erreur inconnue est survenue lors du d'' @ [CHR 0xE9] @
          ''marrage de la session.'')"

definition start_failed :: "thrown \<Rightarrow> service \<Rightarrow> service \<times> effect list" where
  "start_failed e s =
     (let (s', es) = cleanup s in (s', Callback (onError (start_error_message e)) # es))"

text \<open>
  \<open>startSession\<close> from line 38 to the \<open>await\<close> of line 91, when nothing else runs
  while line 38 waits for the microphone. The result says whether the method is now
  waiting for the connection (\<open>True\<close>) or has ended in the \<open>catch\<close> block.
\<close>

definition startSession_begin :: "start_env \<Rightarrow> service \<Rightarrow> bool \<times> service \<times> effect list" where
  "startSession_begin env s =
     (case microphone env of
        Inl e \<Rightarrow> (let (s', es) = start_failed e s in (False, s', GetUserMedia # es))
      | Inr stream \<Rightarrow>
          (let s1 = s\<lparr>mediaStream := Some stream\<rparr> in
           case capture_context env of
             Inl e \<Rightarrow>
               (let (s', es) = start_failed e s1
                in (False, s', [GetUserMedia, NewAudioContext 16000] @ es))
           | Inr ictx \<Rightarrow>
               (let s2 = s1\<lparr>inputAudioContext := Some ictx\<rparr> in
                case playback_context env of
                  Inl e \<Rightarrow>
                    (let (s', es) = start_failed e s2
                     in (False, s',
                         [GetUserMedia, NewAudioContext 16000, NewAudioContext 24000] @ es))
                | Inr octx \<Rightarrow>
                    (True,
                     s2\<lparr>outputAudioContext := Some octx, sessionPromise := Some (promise env)\<rparr>,
                     [GetUserMedia, NewAudioContext 16000, NewAudioContext 24000,
                      LiveConnect connect_request]))))"

text \<open>
  Line 38 is itself an \<open>await\<close>: the method calls \<open>getUserMedia\<close> and returns to the
  event loop, and other handlers and \<open>stopSession\<close> may run before it goes on. This is
  \<open>startSession\<close> from the point where that wait ends to the \<open>await\<close> of line 91, on the
  state the service has by then.
\<close>

definition startSession_acquired :: "start_env \<Rightarrow> service \<Rightarrow> bool \<times> service \<times> effect list" where
  "startSession_acquired env s =
     (case microphone env of
        Inl e \<Rightarrow> (let (s', es) = start_failed e s in (False, s', es))
      | Inr stream \<Rightarrow>
          (let s1 = s\<lparr>mediaStream := Some stream\<rparr> in
           case capture_context env of
             Inl e \<Rightarrow>
               (let (s', es) = start_failed e s1
                in (False, s', [NewAudioContext 16000] @ es))
           | Inr ictx \<Rightarrow>
               (let s2 = s1\<lparr>inputAudioContext := Some ictx\<rparr> in
                case playback_context env of
                  Inl e \<Rightarrow>
                    (let (s', es) = start_failed e s2
                     in (False, s', [NewAudioContext 16000, NewAudioContext 24000] @ es))
                | Inr octx \<Rightarrow>
                    (True,
                     s2\<lparr>outputAudioContext := Some octx, sessionPromise := Some (promise env)\<rparr>,
                     [NewAudioContext 16000, NewAudioContext 24000,
                      LiveConnect connect_request]))))"

text \<open>Line 91 once the promise has settled, and the \<open>catch\<close> block when it was rejected.\<close>

definition startSession_finish :: "thrown + handle \<Rightarrow> service \<Rightarrow> service \<times> effect list" where
  "startSession_finish r s =
     (case r of
        Inl e \<Rightarrow> start_failed e s
      | Inr sess \<Rightarrow> (s\<lparr>session := Some sess\<rparr>, []))"

text \<open>
  The \<open>onopen\<close> callback (lines 67 to 81), given the two nodes that the context creates.
  The non-null assertions are not checked at run time: with a null context or stream the
  first call throws and nothing is wired. The frame handler of lines 71 to 77 reads and
  writes no field of the class; installing it is the effect \<open>SetOnAudioProcess\<close>.
\<close>

definition on_open :: "handle \<Rightarrow> handle \<Rightarrow> service \<Rightarrow> outcome \<times> service \<times> effect list" where
  "on_open node processor s =
     (case inputAudioContext s of
        None \<Rightarrow> (Failed, s, [])
      | Some ctx \<Rightarrow>
          (case mediaStream s of
             None \<Rightarrow> (Failed, s, [])
           | Some stream \<Rightarrow>
               (Done,
                s\<lparr>sourceNode := Some node, scriptProcessor := Some processor\<rparr>,
                [CreateMediaStreamSource ctx stream,
                 CreateScriptProcessor ctx 4096 1 1,
                 SetOnAudioProcess processor,
                 ConnectNode node processor,
                 ConnectDestination processor ctx])))"

text \<open>The \<open>onerror\<close> callback (line 83).\<close>

definition on_error :: "string \<Rightarrow> service \<Rightarrow> service \<times> effect list" where
  "on_error msg s = (s, [Callback (onError (''Erreur de connexion : '' @ msg))])"

text \<open>The \<open>onclose\<close> callback (lines 84 to 87).\<close>

definition on_close :: "service \<Rightarrow> service \<times> effect list" where
  "on_close s = (let (s', es) = cleanup s in (s', Callback onClose # es))"

text \<open>What the connection can fire, and the callback of lines 66 to 88 that each runs.\<close>

datatype conn_event =
    Open handle handle
  | Message server_message msg_env
  | ErrorEvent string
  | CloseEvent

fun fire :: "conn_event \<Rightarrow> service \<Rightarrow> service \<times> effect list" where
  "fire (Open node processor) s = snd (on_open node processor s)"
| "fire (Message m env) s = snd (handleServerMessage env m s)"
| "fire (ErrorEvent msg) s = on_error msg s"
| "fire CloseEvent s = on_close s"

fun fire_all :: "conn_event list \<Rightarrow> service \<Rightarrow> service \<times> effect list" where
  "fire_all [] s = (s, [])"
| "fire_all (ev # evs) s =
     (let (s1, e1) = fire ev s; (s2, e2) = fire_all evs s1 in (s2, e1 @ e2))"

text \<open>\<open>startSession\<close> (lines 36 to 101) as a whole: the events \<open>evs\<close> are those the
  connection fires while line 91 waits for the promise.\<close>

definition startSession ::
  "start_env \<Rightarrow> conn_event list \<Rightarrow> service \<Rightarrow> service \<times> effect list" where
  "startSession env evs s =
     (let (waiting, s1, e1) = startSession_begin env s
      in if waiting
         then (let (s2, e2) = fire_all evs s1;
                   (s3, e3) = startSession_finish (connected env) s2
               in (s3, e1 @ e2 @ e3))
         else (s1, e1))"

section \<open>Observations\<close>

text \<open>The transcript buffer of a speaker, and the partial text a message carries for
  that speaker (the empty string when it carries none).\<close>

definition buffer :: "speaker \<Rightarrow> service \<Rightarrow> string" where
  "buffer S s =
     (case S of Victime \<Rightarrow> currentInputTranscription s | IA \<Rightarrow> currentOutputTranscription s)"

definition partial_text :: "speaker \<Rightarrow> server_message \<Rightarrow> string option" where
  "partial_text S m =
     (case S of Victime \<Rightarrow> content_field inputTranscription m
              | IA \<Rightarrow> content_field outputTranscription m)"

definition appended :: "speaker \<Rightarrow> server_message \<Rightarrow> string" where
  "appended S m = (case partial_text S m of None \<Rightarrow> [] | Some txt \<Rightarrow> txt)"

text \<open>The partial texts for a speaker in a sequence of messages, in order of arrival.\<close>

definition texts_for :: "speaker \<Rightarrow> (server_message \<times> msg_env) list \<Rightarrow> string list" where
  "texts_for S ms = List.map_filter (\<lambda>(m, env). partial_text S m) ms"

text \<open>The \<open>onTranscriptUpdate\<close> calls for a speaker among some effects: the text and the
  \<open>isFinal\<close> argument of each, in order.\<close>

fun update_of :: "speaker \<Rightarrow> effect \<Rightarrow> (string \<times> bool) list" where
  "update_of S (Callback (onTranscriptUpdate txt final S')) =
     (if S' = S then [(txt, final)] else [])"
| "update_of S _ = []"

definition updates_for :: "speaker \<Rightarrow> effect list \<Rightarrow> (string \<times> bool) list" where
  "updates_for S es = concat (map (update_of S) es)"

text \<open>The effects of one transcript stage, and of one speaker's half of the turn-complete
  stage on a buffer \<open>b\<close>.\<close>

definition transcript_effects :: "speaker \<Rightarrow> server_message \<Rightarrow> service \<Rightarrow> effect list" where
  "transcript_effects S m s =
     (case partial_text S m of
        None \<Rightarrow> []
      | Some txt \<Rightarrow> [Callback (onTranscriptUpdate (buffer S s @ txt) False S)])"

definition flushed :: "speaker \<Rightarrow> string \<Rightarrow> effect list" where
  "flushed S b = (if b \<noteq> [] then [Callback (onTurnComplete S)] else [])"

text \<open>The buffer of a speaker at the moment line 116 looks at the turn-complete flag: the
  partial text of the same message has been appended by then.\<close>

definition buffer_at_turn :: "speaker \<Rightarrow> server_message \<Rightarrow> service \<Rightarrow> string" where
  "buffer_at_turn S m s = buffer S s @ appended S m"

definition partial_message :: "speaker \<Rightarrow> string \<Rightarrow> server_message" where
  "partial_message S t =
     (case S of
        Victime \<Rightarrow> with_content (no_content\<lparr>inputTranscription := Some t\<rparr>)
      | IA \<Rightarrow> with_content (no_content\<lparr>outputTranscription := Some t\<rparr>))"

definition turn_complete_message :: server_message where
  "turn_complete_message = with_content (no_content\<lparr>turnComplete := True\<rparr>)"

definition interruption_message :: server_message where
  "interruption_message = with_content (no_content\<lparr>interrupted := True\<rparr>)"

text \<open>The \<open>start\<close> and \<open>stop\<close> calls among some effects: the source and the start time of
  each \<open>start\<close>, the source of each \<open>stop\<close>, in order.\<close>

fun start_of :: "effect \<Rightarrow> (handle \<times> real) list" where
  "start_of (StartSource src t) = [(src, t)]"
| "start_of _ = []"

definition start_calls :: "effect list \<Rightarrow> (handle \<times> real) list" where
  "start_calls es = concat (map start_of es)"

definition start_times :: "effect list \<Rightarrow> real list" where
  "start_times es = map snd (start_calls es)"

fun stop_of :: "effect \<Rightarrow> handle list" where
  "stop_of (StopSource src) = [src]"
| "stop_of _ = []"

definition stop_calls :: "effect list \<Rightarrow> handle list" where
  "stop_calls es = concat (map stop_of es)"

text \<open>
  A message that is a synthesized-audio chunk and no interruption signal: it has a
  non-empty payload, and the payload decodes. Its duration is that of the decoded buffer.
\<close>

fun audio_chunk :: "server_message \<times> msg_env \<Rightarrow> bool" where
  "audio_chunk (m, env) \<longleftrightarrow>
     \<not> content_flag interrupted m \<and>
     (case base64Audio m of None \<Rightarrow> False | Some d \<Rightarrow> d \<noteq> []) \<and>
     decoded env \<noteq> None"

fun chunk_duration :: "server_message \<times> msg_env \<Rightarrow> real" where
  "chunk_duration (m, env) = (case decoded env of None \<Rightarrow> 0 | Some buf \<Rightarrow> duration buf)"

text \<open>The output clock never runs past the schedule: when a chunk is handled, the
  context's current time is at most the end \<open>t\<close> of what has been scheduled before it.\<close>

fun clock_behind :: "real \<Rightarrow> (server_message \<times> msg_env) list \<Rightarrow> bool" where
  "clock_behind t [] \<longleftrightarrow> True"
| "clock_behind t (c # rest) \<longleftrightarrow>
     currentTime (snd c) \<le> t \<and> clock_behind (t + chunk_duration c) rest"

text \<open>Two playback units, each a start time and a duration, overlap when each begins before
  the other has ended.\<close>

fun overlap :: "real \<times> real \<Rightarrow> real \<times> real \<Rightarrow> bool" where
  "overlap (t, d) (t', d') \<longleftrightarrow> t < t' + d' \<and> t' < t + d"

text \<open>A schedule in which each unit begins no earlier than the one before it ends, the
  first one no earlier than \<open>t\<close>.\<close>

fun chained :: "real \<Rightarrow> (real \<times> real) list \<Rightarrow> bool" where
  "chained t [] \<longleftrightarrow> True"
| "chained t ((st, d) # rest) \<longleftrightarrow> t \<le> st \<and> chained (st + d) rest"

text \<open>The effects that schedule a playback unit (lines 140 to 148), and those that wire
  the capture path (lines 68 to 80).\<close>

fun schedules :: "effect \<Rightarrow> bool" where
  "schedules (CreateBufferSource ctx) \<longleftrightarrow> True"
| "schedules (SetBuffer src buf) \<longleftrightarrow> True"
| "schedules (ConnectSource src ctx) \<longleftrightarrow> True"
| "schedules (AddEndedListener src) \<longleftrightarrow> True"
| "schedules (StartSource src t) \<longleftrightarrow> True"
| "schedules _ \<longleftrightarrow> False"

fun wires :: "effect \<Rightarrow> bool" where
  "wires (CreateMediaStreamSource ctx stream) \<longleftrightarrow> True"
| "wires (CreateScriptProcessor ctx n i out) \<longleftrightarrow> True"
| "wires (SetOnAudioProcess node) \<longleftrightarrow> True"
| "wires (ConnectNode a b) \<longleftrightarrow> True"
| "wires (ConnectDestination node ctx) \<longleftrightarrow> True"
| "wires _ \<longleftrightarrow> False"

fun is_open :: "conn_event \<Rightarrow> bool" where
  "is_open (Open node processor) \<longleftrightarrow> True"
| "is_open _ \<longleftrightarrow> False"

text \<open>A service with a session under way: every resource is held and two sources are
  scheduled.\<close>

definition running :: service where
  "running =
     initial\<lparr>session := Some 5, sessionPromise := Some 4, mediaStream := Some 1,
       inputAudioContext := Some 2, outputAudioContext := Some 3,
       scriptProcessor := Some 7, sourceNode := Some 6,
       outputSources := [10, 11], nextStartTime := 5\<rparr>"

text \<open>The capture path is not wired: there is neither a source node nor a script
  processor.\<close>

definition unwired :: "service \<Rightarrow> bool" where
  "unwired s \<longleftrightarrow> sourceNode s = None \<and> scriptProcessor s = None"

text \<open>
  The handler is \<open>async\<close>: while line 139 waits for the decoder, other messages may be
  received and other decodes may complete. A step is the part of a handler that runs
  without interruption: a message arriving (lines 104 to 137), a decode completing
  (lines 139 to 150), or a source reporting its end (line 145).
\<close>

datatype step =
    Arrives server_message real
  | Decoded "audio_buffer option" handle
  | Ended handle

fun do_step :: "step \<Rightarrow> service \<Rightarrow> service \<times> effect list" where
  "do_step (Arrives m now) s = (let (s1, e1) = receive m s in (snd (audio_begin now m s1), e1))"
| "do_step (Decoded dec src) s = snd (audio_finish dec src s)"
| "do_step (Ended src) s = (on_ended src s, [])"

fun do_steps :: "step list \<Rightarrow> service \<Rightarrow> service \<times> effect list" where
  "do_steps [] s = (s, [])"
| "do_steps (x # xs) s =
     (let (s1, e1) = do_step x s; (s2, e2) = do_steps xs s1 in (s2, e1 @ e2))"

text \<open>The durations of the buffers that the decodes among some steps deliver, in order, and
  whether a step is an interruption signal.\<close>

fun delivered :: "step \<Rightarrow> real list" where
  "delivered (Decoded (Some buf) src) = [duration buf]"
| "delivered _ = []"

fun interrupts :: "step \<Rightarrow> bool" where
  "interrupts (Arrives m now) \<longleftrightarrow> content_flag interrupted m"
| "interrupts _ \<longleftrightarrow> False"

text \<open>The output clock never runs past the schedule during some steps: each message
  arrives at a current time that is at most the end \<open>t\<close> of what has been scheduled.\<close>

fun steps_clock_behind :: "real \<Rightarrow> step list \<Rightarrow> bool" where
  "steps_clock_behind t [] \<longleftrightarrow> True"
| "steps_clock_behind t (Arrives m now # xs) \<longleftrightarrow> now \<le> t \<and> steps_clock_behind t xs"
| "steps_clock_behind t (Decoded (Some buf) src # xs) \<longleftrightarrow>
     steps_clock_behind (t + duration buf) xs"
| "steps_clock_behind t (Decoded None src # xs) \<longleftrightarrow> steps_clock_behind t xs"
| "steps_clock_behind t (Ended src # xs) \<longleftrightarrow> steps_clock_behind t xs"

text \<open>
  Everything that can run on a service, each a piece of code that the event loop runs
  without interruption: a step of a message handler or the listener of an ended source;
  the \<open>onopen\<close>, \<open>onerror\<close> and \<open>onclose\<close> callbacks; a call of \<open>stopSession\<close>; a call
  of \<open>startSession\<close>, up to its wait for the microphone; and the two resumptions of
  \<open>startSession\<close>, from the wait of line 38 and from the wait of line 91.
\<close>

datatype happening =
    Handler step
  | Opens handle handle
  | Errs string
  | Closes
  | Stops
  | Starts
  | Acquires start_env
  | Connects "thrown + handle"

fun happen :: "happening \<Rightarrow> service \<Rightarrow> service \<times> effect list" where
  "happen (Handler x) s = do_step x s"
| "happen (Opens node processor) s = snd (on_open node processor s)"
| "happen (Errs msg) s = on_error msg s"
| "happen Closes s = on_close s"
| "happen Stops s = stopSession s"
| "happen Starts s = (s, [GetUserMedia])"
| "happen (Acquires env) s = snd (startSession_acquired env s)"
| "happen (Connects r) s = startSession_finish r s"

fun happen_all :: "happening list \<Rightarrow> service \<Rightarrow> service \<times> effect list" where
  "happen_all [] s = (s, [])"
| "happen_all (h # hs) s =
     (let (s1, e1) = happen h s; (s2, e2) = happen_all hs s1 in (s2, e1 @ e2))"

text \<open>A resumption of \<open>startSession\<close> from its wait for the microphone: the one piece of
  code that assigns an output context.\<close>

fun acquires :: "happening \<Rightarrow> bool" where
  "acquires (Acquires env) \<longleftrightarrow> True"
| "acquires _ \<longleftrightarrow> False"

text \<open>
  A message has a payload when line 136 finds a non-empty string. With the output
  context open, such a message reads the output clock at line 137; \<open>reading\<close> is that
  clock value.
\<close>

definition has_payload :: "server_message \<Rightarrow> bool" where
  "has_payload m = (case base64Audio m of None \<Rightarrow> False | Some d \<Rightarrow> d \<noteq> [])"

fun reading :: "happening \<Rightarrow> real list" where
  "reading (Handler (Arrives m now)) = (if has_payload m then [now] else [])"
| "reading _ = []"

text \<open>
  What may run between an interruption and the start of the next unit without being
  either of them: no further interruption signal, no decode that delivers a buffer, no
  teardown and no resumption of the start-up from line 38.
\<close>

fun calm :: "happening \<Rightarrow> bool" where
  "calm (Handler x) \<longleftrightarrow> \<not> interrupts x \<and> delivered x = []"
| "calm (Opens node processor) \<longleftrightarrow> True"
| "calm (Errs msg) \<longleftrightarrow> True"
| "calm Starts \<longleftrightarrow> True"
| "calm (Connects (Inr sess)) \<longleftrightarrow> True"
| "calm _ \<longleftrightarrow> False"

text \<open>The largest of \<open>t\<close> and some clock readings.\<close>

definition latest :: "real \<Rightarrow> real list \<Rightarrow> real" where
  "latest t rs = fold max rs t"

text \<open>The output context field is null and the live set empty.\<close>

definition silent :: "service \<Rightarrow> bool" where
  "silent s \<longleftrightarrow> outputAudioContext s = None \<and> outputSources s = []"

section \<open>Properties of teardown\<close>

lemma cleanup_torn_down: "torn_down (fst (cleanup s))"
  by (simp add: cleanup_def torn_down_def)

lemma cleanup_of_torn_down: "torn_down s \<Longrightarrow> cleanup s = (s, [])"
  by (simp add: cleanup_def torn_down_def opt_call_def)

text \<open>
  Claim C9. Whatever the state before, a run of \<open>cleanup\<close> stops the tracks of the
  microphone stream, disconnects the source node and the script processor, closes both
  audio contexts and stops every source of the live set, each of them when it is there,
  and leaves every resource field null and the live set empty.
\<close>

theorem cleanup_releases_everything:
  "torn_down (fst (cleanup s)) \<and>
   (\<forall>h \<in> set_option (mediaStream s). StopTracks h \<in> set (snd (cleanup s))) \<and>
   (\<forall>h \<in> set_option (sourceNode s). Disconnect h \<in> set (snd (cleanup s))) \<and>
   (\<forall>h \<in> set_option (scriptProcessor s). Disconnect h \<in> set (snd (cleanup s))) \<and>
   (\<forall>h \<in> set_option (inputAudioContext s). CloseContext h \<in> set (snd (cleanup s))) \<and>
   (\<forall>h \<in> set_option (outputAudioContext s). CloseContext h \<in> set (snd (cleanup s))) \<and>
   (\<forall>h \<in> set (outputSources s). StopSource h \<in> set (snd (cleanup s)))"
  by (auto simp: cleanup_def torn_down_def opt_call_def)

theorem cleanup_releases_everything_witness:
  "torn_down (fst (cleanup
      (initial\<lparr>session := Some 7, sessionPromise := Some 6, mediaStream := Some 1,
         inputAudioContext := Some 2, outputAudioContext := Some 3,
         scriptProcessor := Some 5, sourceNode := Some 4, outputSources := [8, 9]\<rparr>))) \<and>
   set [StopTracks 1, Disconnect 4, Disconnect 5, CloseContext 2, CloseContext 3,
        StopSource 8, StopSource 9]
     \<subseteq> set (snd (cleanup
      (initial\<lparr>session := Some 7, sessionPromise := Some 6, mediaStream := Some 1,
         inputAudioContext := Some 2, outputAudioContext := Some 3,
         scriptProcessor := Some 5, sourceNode := Some 4, outputSources := [8, 9]\<rparr>)))"
  using cleanup_releases_everything
    [of "initial\<lparr>session := Some 7, sessionPromise := Some 6, mediaStream := Some 1,
         inputAudioContext := Some 2, outputAudioContext := Some 3,
         scriptProcessor := Some 5, sourceNode := Some 4, outputSources := [8, 9]\<rparr>"]
  by (simp add: initial_def)

text \<open>
  Claim C10. \<open>cleanup\<close> assigns neither transcript buffer nor the playback clock: the
  three fields have the same values after the call as before it.
\<close>

theorem cleanup_keeps_transcripts_and_clock:
  "currentInputTranscription (fst (cleanup s)) = currentInputTranscription s \<and>
   currentOutputTranscription (fst (cleanup s)) = currentOutputTranscription s \<and>
   nextStartTime (fst (cleanup s)) = nextStartTime s"
  by (simp add: cleanup_def)

section \<open>The stages of the message handler\<close>

lemma updates_for_append [simp]: "updates_for S (a @ b) = updates_for S a @ updates_for S b"
  by (simp add: updates_for_def)

lemma updates_for_Nil [simp]: "updates_for S [] = []"
  by (simp add: updates_for_def)

lemma stop_each_effects: "snd (stop_each xs s) = map StopSource xs"
  by (induction xs arbitrary: s) (auto simp: split_def)

lemma stop_each_state:
  "fst (stop_each xs s) = s\<lparr>outputSources := filter (\<lambda>y. y \<notin> set xs) (outputSources s)\<rparr>"
proof (induction xs arbitrary: s)
  case Nil
  show ?case by simp
next
  case (Cons x xs)
  have "filter (\<lambda>y. y \<notin> set xs) (filter (\<lambda>y. y \<noteq> x) ys) = filter (\<lambda>y. y \<notin> set (x # xs)) ys" for ys :: "handle list"
    by (induction ys) auto
  then show ?case
    by (simp add: split_def Cons.IH set_delete_def)
qed

lemma on_interrupted_state:
  "fst (on_interrupted m s) =
     (if content_flag interrupted m then s\<lparr>outputSources := [], nextStartTime := 0\<rparr> else s)"
  by (simp add: on_interrupted_def split_def stop_each_state)

lemma on_interrupted_effects:
  "snd (on_interrupted m s) =
     (if content_flag interrupted m then map StopSource (outputSources s) else [])"
  by (simp add: on_interrupted_def split_def stop_each_effects)

lemma on_inputTranscription_fst:
  "fst (on_inputTranscription m s) =
     s\<lparr>currentInputTranscription := currentInputTranscription s @ appended Victime m\<rparr>"
  by (simp add: on_inputTranscription_def appended_def partial_text_def Let_def split: option.splits)

lemma on_inputTranscription_snd:
  "snd (on_inputTranscription m s) =
     (case partial_text Victime m of None \<Rightarrow> []
      | Some txt \<Rightarrow> [Callback (onTranscriptUpdate (currentInputTranscription s @ txt) False Victime)])"
  by (simp add: on_inputTranscription_def partial_text_def Let_def split: option.splits)

lemma on_outputTranscription_fst:
  "fst (on_outputTranscription m s) =
     s\<lparr>currentOutputTranscription := currentOutputTranscription s @ appended IA m\<rparr>"
  by (simp add: on_outputTranscription_def appended_def partial_text_def Let_def split: option.splits)

lemma on_outputTranscription_snd:
  "snd (on_outputTranscription m s) =
     (case partial_text IA m of None \<Rightarrow> []
      | Some txt \<Rightarrow> [Callback (onTranscriptUpdate (currentOutputTranscription s @ txt) False IA)])"
  by (simp add: on_outputTranscription_def partial_text_def Let_def split: option.splits)

lemma on_turnComplete_fst:
  "fst (on_turnComplete m s) =
     (if content_flag turnComplete m
      then s\<lparr>currentInputTranscription := [], currentOutputTranscription := []\<rparr>
      else s)"
  by (simp add: on_turnComplete_def)

lemma on_turnComplete_snd:
  "snd (on_turnComplete m s) =
     (if content_flag turnComplete m
      then flushed Victime (currentInputTranscription s) @ flushed IA (currentOutputTranscription s)
      else [])"
  by (simp add: on_turnComplete_def flushed_def)

lemma receive_fst:
  "fst (receive m s) =
     (let s2 = s\<lparr>currentInputTranscription := currentInputTranscription s @ appended Victime m,
                 currentOutputTranscription := currentOutputTranscription s @ appended IA m\<rparr>;
          s3 = (if content_flag turnComplete m
                then s2\<lparr>currentInputTranscription := [], currentOutputTranscription := []\<rparr>
                else s2)
      in if content_flag interrupted m
         then s3\<lparr>outputSources := [], nextStartTime := 0\<rparr> else s3)"
  by (simp add: receive_def split_def Let_def on_inputTranscription_fst
      on_outputTranscription_fst on_turnComplete_fst on_interrupted_state)

lemma receive_snd:
  "snd (receive m s) =
     transcript_effects Victime m s @ transcript_effects IA m s @
     (if content_flag turnComplete m
      then flushed Victime (buffer Victime s @ appended Victime m) @
           flushed IA (buffer IA s @ appended IA m)
      else []) @
     (if content_flag interrupted m then map StopSource (outputSources s) else [])"
  by (simp add: receive_def split_def Let_def on_inputTranscription_fst
      on_outputTranscription_fst on_turnComplete_fst on_interrupted_effects
      on_inputTranscription_snd on_outputTranscription_snd on_turnComplete_snd
      transcript_effects_def buffer_def cong: option.case_cong)

lemma receive_buffer:
  "buffer S (fst (receive m s)) =
     (if content_flag turnComplete m then [] else buffer S s @ appended S m)"
  by (cases S) (simp_all add: receive_fst buffer_def Let_def)

lemma receive_resources:
  "outputAudioContext (fst (receive m s)) = outputAudioContext s"
  "inputAudioContext (fst (receive m s)) = inputAudioContext s"
  "mediaStream (fst (receive m s)) = mediaStream s"
  "sourceNode (fst (receive m s)) = sourceNode s"
  "scriptProcessor (fst (receive m s)) = scriptProcessor s"
  "session (fst (receive m s)) = session s"
  "sessionPromise (fst (receive m s)) = sessionPromise s"
  by (simp_all add: receive_fst Let_def)

lemma receive_clock:
  "nextStartTime (fst (receive m s)) = (if content_flag interrupted m then 0 else nextStartTime s)"
  by (simp add: receive_fst Let_def)

lemma receive_sources:
  "outputSources (fst (receive m s)) = (if content_flag interrupted m then [] else outputSources s)"
  by (simp add: receive_fst Let_def)

lemma audio_begin_fst:
  "fst (audio_begin now m s) =
     (case base64Audio m of None \<Rightarrow> False | Some d \<Rightarrow> d \<noteq> [] \<and> outputAudioContext s \<noteq> None)"
  by (simp add: audio_begin_def split: option.splits)

lemma audio_begin_snd:
  "snd (audio_begin now m s) =
     (if fst (audio_begin now m s) then s\<lparr>nextStartTime := max (nextStartTime s) now\<rparr> else s)"
  by (simp add: audio_begin_def split: option.splits)

lemma playback_torn_down:
  "outputAudioContext s = None \<Longrightarrow> playback env m s = (Done, s, [])"
  by (simp add: playback_def split_def Let_def audio_begin_fst audio_begin_snd split: option.splits)

lemma playback_chunk:
  assumes "base64Audio m = Some d" "d \<noteq> []" "outputAudioContext s = Some ctx"
    and "decoded env = Some buf"
  shows "playback env m s =
     (Done,
      s\<lparr>nextStartTime := max (nextStartTime s) (currentTime env) + duration buf,
        outputSources := set_add (new_source env) (outputSources s)\<rparr>,
      [CreateBufferSource ctx, SetBuffer (new_source env) buf,
       ConnectSource (new_source env) ctx, AddEndedListener (new_source env),
       StartSource (new_source env) (max (nextStartTime s) (currentTime env))])"
  using assms
  by (simp add: playback_def split_def Let_def audio_begin_fst audio_begin_snd audio_finish_def)

lemma audio_finish_no_callback: "Callback c \<notin> set (snd (snd (audio_finish dec src s)))"
  by (simp add: audio_finish_def split: option.splits)

lemma playback_no_callback: "Callback c \<notin> set (snd (snd (playback env m s)))"
  by (simp add: playback_def split_def Let_def audio_finish_no_callback)

lemma audio_finish_buffer: "buffer S (fst (snd (audio_finish dec src s))) = buffer S s"
  by (cases S) (simp_all add: audio_finish_def buffer_def split: option.splits)

lemma playback_buffer: "buffer S (fst (snd (playback env m s))) = buffer S s"
  by (cases S) (simp_all add: playback_def split_def Let_def audio_finish_buffer audio_begin_snd buffer_def
      audio_finish_def split: option.splits)

lemma handle_state: "fst (snd (handleServerMessage env m s)) = fst (snd (playback env m (fst (receive m s))))"
  by (simp add: handleServerMessage_def split_def Let_def)

lemma handle_effects:
  "snd (snd (handleServerMessage env m s)) =
     snd (receive m s) @ snd (snd (playback env m (fst (receive m s))))"
  by (simp add: handleServerMessage_def split_def Let_def)

lemma handle_buffer:
  "buffer S (fst (snd (handleServerMessage env m s))) =
     (if content_flag turnComplete m then [] else buffer S s @ appended S m)"
  by (simp add: handle_state playback_buffer receive_buffer)

lemma updates_for_no_callback:
  "(\<And>c. Callback c \<notin> set es) \<Longrightarrow> updates_for S es = []"
proof (induction es)
  case Nil
  show ?case by simp
next
  case (Cons e es)
  then show ?case by (cases e) (auto simp: updates_for_def)
qed

lemma updates_for_transcript:
  "updates_for S (transcript_effects S' m s) =
     (if S' = S then (case partial_text S m of None \<Rightarrow> [] | Some txt \<Rightarrow> [(buffer S s @ txt, False)]) else [])"
  by (auto simp: transcript_effects_def updates_for_def split: option.splits)

lemma updates_for_flushed: "updates_for S (flushed S' b) = []"
  by (simp add: flushed_def updates_for_def)

lemma updates_for_stops: "updates_for S (map StopSource xs) = []"
  by (induction xs) (simp_all add: updates_for_def)

lemma handle_updates:
  "updates_for S (snd (snd (handleServerMessage env m s))) =
     (case partial_text S m of None \<Rightarrow> [] | Some txt \<Rightarrow> [(buffer S s @ txt, False)])"
  by (cases S)
     (simp_all add: handle_effects receive_snd updates_for_transcript updates_for_flushed
        updates_for_stops updates_for_no_callback playback_no_callback
      cong: option.case_cong)

lemma handle_all_Cons_fst:
  "fst (handle_all ((m, env) # rest) s) = fst (handle_all rest (fst (snd (handleServerMessage env m s))))"
  by (simp add: split_def Let_def)

lemma handle_all_Cons_snd:
  "snd (handle_all ((m, env) # rest) s) =
     snd (snd (handleServerMessage env m s)) @
     snd (handle_all rest (fst (snd (handleServerMessage env m s))))"
  by (simp add: split_def Let_def)

lemma texts_for_Cons:
  "texts_for S ((m, env) # rest) =
     (case partial_text S m of None \<Rightarrow> texts_for S rest | Some txt \<Rightarrow> txt # texts_for S rest)"
  by (simp add: texts_for_def map_filter_simps split: option.splits)

lemma texts_for_Nil: "texts_for S [] = []"
  by (simp add: texts_for_def map_filter_simps)

lemma running_updates:
  assumes "list_all (\<lambda>(m, env). \<not> content_flag turnComplete m) ms"
  shows "updates_for S (snd (handle_all ms s)) =
     map (\<lambda>i. (buffer S s @ concat (take (Suc i) (texts_for S ms)), False))
       [0..<length (texts_for S ms)]"
  using assms
proof (induction ms arbitrary: s)
  case Nil
  show ?case by (simp add: texts_for_Nil)
next
  case (Cons p rest)
  obtain m env where p: "p = (m, env)" by (cases p)
  from Cons.prems p have quiet: "\<not> content_flag turnComplete m"
    and rest: "list_all (\<lambda>(m, env). \<not> content_flag turnComplete m) rest"
    by simp_all
  let ?s1 = "fst (snd (handleServerMessage env m s))"
  have buf: "buffer S ?s1 = buffer S s @ appended S m"
    using quiet by (simp add: handle_buffer)
  have ih: "updates_for S (snd (handle_all rest ?s1)) =
     map (\<lambda>i. (buffer S ?s1 @ concat (take (Suc i) (texts_for S rest)), False))
       [0..<length (texts_for S rest)]"
    by (rule Cons.IH [OF rest])
  show ?case
  proof (cases "partial_text S m")
    case None
    then show ?thesis
      by (simp add: p handle_all_Cons_snd handle_updates ih buf appended_def texts_for_Cons
          del: handle_all.simps)
  next
    case (Some t)
    then show ?thesis
      by (simp add: p handle_all_Cons_snd handle_updates ih buf appended_def texts_for_Cons
          map_upt_Suc del: upt_Suc handle_all.simps)
  qed
qed

lemma count_flushed:
  "count_list (flushed S' b) (Callback (onTurnComplete S)) = (if S' = S \<and> b \<noteq> [] then 1 else 0)"
  by (simp add: flushed_def)

lemma count_transcript: "count_list (transcript_effects S' m s) (Callback (onTurnComplete S)) = 0"
  by (simp add: transcript_effects_def split: option.splits)

lemma count_no_callback: "(\<And>c. Callback c \<notin> set es) \<Longrightarrow> count_list es (Callback c') = 0"
  by (simp add: count_list_0_iff)

lemma count_stops: "count_list (map StopSource xs) (Callback c) = 0"
  by (induction xs) simp_all

lemma handle_turn_count:
  "count_list (snd (snd (handleServerMessage env m s))) (Callback (onTurnComplete S)) =
     (if content_flag turnComplete m \<and> buffer S s @ appended S m \<noteq> [] then 1 else 0)"
  by (cases S)
     (simp_all add: handle_effects receive_snd count_flushed count_transcript count_stops
        count_no_callback playback_no_callback)

lemma start_calls_Nil: "start_calls [] = []"
  by (simp add: start_calls_def)

lemma stop_calls_Nil: "stop_calls [] = []"
  by (simp add: stop_calls_def)

lemma start_calls_append: "start_calls (a @ b) = start_calls a @ start_calls b"
  by (simp add: start_calls_def)

lemma stop_calls_append: "stop_calls (a @ b) = stop_calls a @ stop_calls b"
  by (simp add: stop_calls_def)

lemma start_calls_transcript: "start_calls (transcript_effects S m s) = []"
  by (auto simp: transcript_effects_def start_calls_def split: option.splits)

lemma stop_calls_transcript: "stop_calls (transcript_effects S m s) = []"
  by (auto simp: transcript_effects_def stop_calls_def split: option.splits)

lemma start_calls_flushed: "start_calls (flushed S b) = []"
  by (simp add: flushed_def start_calls_def)

lemma stop_calls_flushed: "stop_calls (flushed S b) = []"
  by (simp add: flushed_def stop_calls_def)

lemma start_calls_stops: "start_calls (map StopSource xs) = []"
  by (induction xs) (simp_all add: start_calls_def)

lemma stop_calls_stops: "stop_calls (map StopSource xs) = xs"
  by (induction xs) (simp_all add: stop_calls_def)

lemma receive_start_calls: "start_calls (snd (receive m s)) = []"
  by (simp add: receive_snd start_calls_append start_calls_transcript start_calls_flushed
      start_calls_stops start_calls_Nil)

lemma receive_stop_calls:
  "stop_calls (snd (receive m s)) = (if content_flag interrupted m then outputSources s else [])"
  by (simp add: receive_snd stop_calls_append stop_calls_transcript stop_calls_flushed
      stop_calls_stops stop_calls_Nil)

lemma playback_none: "base64Audio m = None \<Longrightarrow> playback env m s = (Done, s, [])"
  by (simp add: playback_def split_def Let_def audio_begin_fst audio_begin_snd)

lemma audio_finish_stop_calls: "stop_calls (snd (snd (audio_finish dec src s))) = []"
  by (simp add: audio_finish_def stop_calls_def split: option.splits)

lemma playback_stop_calls: "stop_calls (snd (snd (playback env m s))) = []"
  by (simp add: playback_def split_def Let_def audio_finish_stop_calls stop_calls_Nil)

lemma handle_stop_calls:
  "stop_calls (snd (snd (handleServerMessage env m s))) =
     (if content_flag interrupted m then outputSources s else [])"
  by (simp add: handle_effects stop_calls_append receive_stop_calls playback_stop_calls)

lemma handle_chunk:
  assumes "base64Audio m = Some d" "d \<noteq> []" "decoded env = Some buf"
    and "outputAudioContext s = Some ctx"
  shows "start_calls (snd (snd (handleServerMessage env m s))) =
           [(new_source env, max (nextStartTime (fst (receive m s))) (currentTime env))]"
    and "nextStartTime (fst (snd (handleServerMessage env m s))) =
           max (nextStartTime (fst (receive m s))) (currentTime env) + duration buf"
    and "outputAudioContext (fst (snd (handleServerMessage env m s))) = Some ctx"
    and "outputSources (fst (snd (handleServerMessage env m s))) =
           set_add (new_source env) (outputSources (fst (receive m s)))"
proof -
  have ctx: "outputAudioContext (fst (receive m s)) = Some ctx"
    using assms(4) by (simp add: receive_resources)
  note pb = playback_chunk [OF assms(1) assms(2) ctx assms(3)]
  show "start_calls (snd (snd (handleServerMessage env m s))) =
           [(new_source env, max (nextStartTime (fst (receive m s))) (currentTime env))]"
  proof -
    have "start_calls (snd (snd (playback env m (fst (receive m s))))) =
           [(new_source env, max (nextStartTime (fst (receive m s))) (currentTime env))]"
      by (simp add: pb start_calls_def)
    then show ?thesis
      by (simp add: handle_effects start_calls_append receive_start_calls)
  qed
  show "nextStartTime (fst (snd (handleServerMessage env m s))) =
           max (nextStartTime (fst (receive m s))) (currentTime env) + duration buf"
    by (simp add: handle_state pb)
  show "outputAudioContext (fst (snd (handleServerMessage env m s))) = Some ctx"
    by (simp add: handle_state pb ctx)
  show "outputSources (fst (snd (handleServerMessage env m s))) =
           set_add (new_source env) (outputSources (fst (receive m s)))"
    by (simp add: handle_state pb)
qed

lemma handle_signal:
  assumes "base64Audio m = None"
  shows "fst (snd (handleServerMessage env m s)) = fst (receive m s)"
    and "snd (snd (handleServerMessage env m s)) = snd (receive m s)"
  using assms by (simp_all add: handle_state handle_effects playback_none)

lemma duration_nonneg: "0 \<le> duration buf"
  by (simp add: duration_def)

lemma chunk_duration_nonneg: "0 \<le> chunk_duration c"
  by (cases c) (simp add: duration_nonneg split: option.splits)

lemma handle_audio_chunk:
  assumes "audio_chunk (m, env)" "outputAudioContext s = Some ctx"
  shows "start_times (snd (snd (handleServerMessage env m s))) =
           [max (nextStartTime s) (currentTime env)]"
    and "nextStartTime (fst (snd (handleServerMessage env m s))) =
           max (nextStartTime s) (currentTime env) + chunk_duration (m, env)"
    and "outputAudioContext (fst (snd (handleServerMessage env m s))) = Some ctx"
proof -
  from assms(1) obtain d buf where d: "base64Audio m = Some d" "d \<noteq> []"
    and buf: "decoded env = Some buf" and quiet: "\<not> content_flag interrupted m"
    by (auto split: option.splits)
  note hc = handle_chunk [OF d buf assms(2)]
  have clock: "nextStartTime (fst (receive m s)) = nextStartTime s"
    using quiet by (simp add: receive_clock)
  show "start_times (snd (snd (handleServerMessage env m s))) =
           [max (nextStartTime s) (currentTime env)]"
    by (simp add: start_times_def hc(1) clock)
  show "nextStartTime (fst (snd (handleServerMessage env m s))) =
           max (nextStartTime s) (currentTime env) + chunk_duration (m, env)"
    by (simp add: hc(2) clock buf)
  show "outputAudioContext (fst (snd (handleServerMessage env m s))) = Some ctx"
    by (rule hc(3))
qed

lemma start_times_append: "start_times (a @ b) = start_times a @ start_times b"
  by (simp add: start_times_def start_calls_append)

lemma start_times_Nil: "start_times [] = []"
  by (simp add: start_times_def start_calls_Nil)

lemma schedule_from:
  assumes "list_all audio_chunk ms" "outputAudioContext s = Some ctx"
    and "clock_behind (nextStartTime s) ms"
  shows "start_times (snd (handle_all ms s)) =
     map (\<lambda>i. nextStartTime s + sum_list (take i (map chunk_duration ms))) [0..<length ms]"
  using assms
proof (induction ms arbitrary: s)
  case Nil
  show ?case by (simp add: start_times_Nil)
next
  case (Cons c rest)
  obtain m env where c: "c = (m, env)" by (cases c)
  let ?s1 = "fst (snd (handleServerMessage env m s))"
  from Cons.prems c have chunk: "audio_chunk (m, env)" and rest: "list_all audio_chunk rest"
    and now: "currentTime env \<le> nextStartTime s"
    and later: "clock_behind (nextStartTime s + chunk_duration (m, env)) rest"
    by simp_all
  note hc = handle_audio_chunk [OF chunk Cons.prems(2)]
  have next1: "nextStartTime ?s1 = nextStartTime s + chunk_duration (m, env)"
    using hc(2) now by (simp add: max_def)
  have ih: "start_times (snd (handle_all rest ?s1)) =
     map (\<lambda>i. nextStartTime ?s1 + sum_list (take i (map chunk_duration rest))) [0..<length rest]"
    using Cons.IH [OF rest hc(3)] later next1 by simp
  have first: "start_times (snd (snd (handleServerMessage env m s))) = [nextStartTime s]"
    using hc(1) now by (simp add: max_def)
  show ?case
    by (simp add: c handle_all_Cons_snd start_times_append first ih next1 map_upt_Suc
        add.assoc del: upt_Suc handle_all.simps chunk_duration.simps)
qed

lemma schedule_chained:
  assumes "list_all audio_chunk ms" "outputAudioContext s = Some ctx"
  shows "chained (nextStartTime s)
     (zip (start_times (snd (handle_all ms s))) (map chunk_duration ms))"
  using assms
proof (induction ms arbitrary: s)
  case Nil
  show ?case by (simp add: start_times_Nil)
next
  case (Cons c rest)
  obtain m env where c: "c = (m, env)" by (cases c)
  let ?s1 = "fst (snd (handleServerMessage env m s))"
  from Cons.prems c have chunk: "audio_chunk (m, env)" and rest: "list_all audio_chunk rest"
    by simp_all
  note hc = handle_audio_chunk [OF chunk Cons.prems(2)]
  have ih: "chained (nextStartTime ?s1)
     (zip (start_times (snd (handle_all rest ?s1))) (map chunk_duration rest))"
    by (rule Cons.IH [OF rest hc(3)])
  show ?case
    using ih
    by (simp add: c handle_all_Cons_snd start_times_append hc(1) hc(2)
        del: handle_all.simps chunk_duration.simps)
qed

lemma chained_later:
  assumes "chained t sched" "\<forall>p \<in> set sched. 0 \<le> snd p" "j < length sched"
  shows "t \<le> fst (sched ! j)"
  using assms
proof (induction sched arbitrary: t j)
  case Nil
  then show ?case by simp
next
  case (Cons p rest)
  obtain st d where p: "p = (st, d)" by (cases p)
  show ?case
  proof (cases j)
    case 0
    with Cons.prems p show ?thesis by simp
  next
    case (Suc k)
    with Cons.prems p have "st + d \<le> fst (rest ! k)"
      using Cons.IH [of "st + d" k] by simp
    moreover from Cons.prems p have "t \<le> st" "0 \<le> d" by simp_all
    ultimately show ?thesis using Suc by simp
  qed
qed

lemma chained_ordered:
  assumes "chained t sched" "\<forall>p \<in> set sched. 0 \<le> snd p" "i < j" "j < length sched"
  shows "fst (sched ! i) + snd (sched ! i) \<le> fst (sched ! j)"
  using assms
proof (induction sched arbitrary: t i j)
  case Nil
  then show ?case by simp
next
  case (Cons p rest)
  obtain st d where p: "p = (st, d)" by (cases p)
  from Cons.prems obtain k where j: "j = Suc k" by (cases j) auto
  from Cons.prems p have ch: "chained (st + d) rest" and nn: "\<forall>p \<in> set rest. 0 \<le> snd p"
    by simp_all
  show ?case
  proof (cases i)
    case 0
    from chained_later [OF ch nn, of k] Cons.prems j have "st + d \<le> fst (rest ! k)" by simp
    with 0 j p show ?thesis by simp
  next
    case (Suc i')
    with Cons.prems j have "i' < k" "k < length rest" by simp_all
    from Cons.IH [OF ch nn this] Suc j show ?thesis by simp
  qed
qed

lemma length_start_times:
  assumes "list_all audio_chunk ms" "outputAudioContext s = Some ctx"
  shows "length (start_times (snd (handle_all ms s))) = length ms"
  using assms
proof (induction ms arbitrary: s)
  case Nil
  show ?case by (simp add: start_times_Nil)
next
  case (Cons c rest)
  obtain m env where c: "c = (m, env)" by (cases c)
  from Cons.prems c have chunk: "audio_chunk (m, env)" and rest: "list_all audio_chunk rest"
    by simp_all
  note hc = handle_audio_chunk [OF chunk Cons.prems(2)]
  from Cons.IH [OF rest hc(3)] show ?case
    by (simp add: c handle_all_Cons_snd start_times_append hc(1) del: handle_all.simps)
qed

lemma schedule_ordered:
  assumes "list_all audio_chunk ms" "outputAudioContext s = Some ctx"
    and "i < j" "j < length ms"
  shows "start_times (snd (handle_all ms s)) ! i + chunk_duration (ms ! i)
           \<le> start_times (snd (handle_all ms s)) ! j"
proof -
  let ?sched = "zip (start_times (snd (handle_all ms s))) (map chunk_duration ms)"
  have len: "length (start_times (snd (handle_all ms s))) = length ms"
    by (rule length_start_times [OF assms(1,2)])
  have nn: "\<forall>p \<in> set ?sched. 0 \<le> snd p"
    by (auto simp: chunk_duration_nonneg dest!: set_zip_rightD simp del: chunk_duration.simps)
  have "fst (?sched ! i) + snd (?sched ! i) \<le> fst (?sched ! j)"
    using chained_ordered [OF schedule_chained [OF assms(1,2)] nn assms(3)] assms(4) len
    by simp
  then show ?thesis
    using assms(3,4) len by simp
qed

section \<open>Transcript aggregation\<close>

text \<open>
  Claim C4. Between two turn-complete signals (after the message \<open>m0\<close> that carries one,
  through messages \<open>ms\<close> that carry none), the \<open>onTranscriptUpdate\<close> calls for a speaker
  are one per partial text for that speaker, each with \<open>isFinal = false\<close> and with the
  concatenation of the partial texts received so far in the turn.
\<close>

theorem partial_transcripts_accumulate:
  assumes "content_flag turnComplete m0"
    and "list_all (\<lambda>(m, env). \<not> content_flag turnComplete m) ms"
  shows "updates_for S (snd (handle_all ms (fst (snd (handleServerMessage env0 m0 s))))) =
     map (\<lambda>i. (concat (take (Suc i) (texts_for S ms)), False)) [0..<length (texts_for S ms)]"
proof -
  have "buffer S (fst (snd (handleServerMessage env0 m0 s))) = []"
    using assms(1) by (simp add: handle_buffer)
  with running_updates [OF assms(2)] show ?thesis
    by simp
qed

theorem partial_transcripts_accumulate_witness:
  "content_flag turnComplete turn_complete_message \<and>
   list_all (\<lambda>(m, env). \<not> content_flag turnComplete m)
     [(partial_message Victime ''B'', quiet_env), (partial_message IA ''Oui'', quiet_env),
      (partial_message Victime ''on'', quiet_env), (partial_message Victime ''jour'', quiet_env)] \<and>
   updates_for Victime
     (snd (handle_all
        [(partial_message Victime ''B'', quiet_env), (partial_message IA ''Oui'', quiet_env),
         (partial_message Victime ''on'', quiet_env), (partial_message Victime ''jour'', quiet_env)]
        (fst (snd (handleServerMessage quiet_env turn_complete_message
           (initial\<lparr>currentInputTranscription := ''avant''\<rparr>)))))) =
     [(''B'', False), (''Bon'', False), (''Bonjour'', False)]"
proof -
  let ?ms = "[(partial_message Victime ''B'', quiet_env), (partial_message IA ''Oui'', quiet_env),
      (partial_message Victime ''on'', quiet_env), (partial_message Victime ''jour'', quiet_env)]"
  have h1: "content_flag turnComplete turn_complete_message"
    by (simp add: content_flag_def turn_complete_message_def with_content_def no_content_def)
  have h2: "list_all (\<lambda>(m, env). \<not> content_flag turnComplete m) ?ms"
    by (simp add: content_flag_def partial_message_def with_content_def no_content_def)
  have texts: "texts_for Victime ?ms = [''B'', ''on'', ''jour'']"
    by (simp add: texts_for_Cons texts_for_Nil partial_text_def content_field_def
        partial_message_def with_content_def no_content_def)
  have upt: "[0..<3] = [0, Suc 0, Suc (Suc 0)]"
    by (simp add: upt_rec)
  show ?thesis
    using h1 h2
      partial_transcripts_accumulate [OF h1 h2, of Victime quiet_env
        "initial\<lparr>currentInputTranscription := ''avant''\<rparr>"]
    by (simp only: texts upt) simp
qed

text \<open>
  Claim C3. When a message with the turn-complete flag is handled, a speaker whose buffer
  is not empty at that moment gets exactly one \<open>onTurnComplete\<close> and its buffer is reset
  to the empty string; a speaker whose buffer is empty gets none.
\<close>

theorem turn_complete_flushes_once:
  assumes "content_flag turnComplete m"
  shows "(buffer_at_turn S m s \<noteq> [] \<longrightarrow>
            count_list (snd (snd (handleServerMessage env m s))) (Callback (onTurnComplete S)) = 1 \<and>
            buffer S (fst (snd (handleServerMessage env m s))) = []) \<and>
         (buffer_at_turn S m s = [] \<longrightarrow>
            count_list (snd (snd (handleServerMessage env m s))) (Callback (onTurnComplete S)) = 0)"
  using assms by (simp add: handle_turn_count handle_buffer buffer_at_turn_def)

theorem turn_complete_flushes_once_witness:
  "content_flag turnComplete turn_complete_message \<and>
   buffer_at_turn Victime turn_complete_message
     (initial\<lparr>currentInputTranscription := ''Bonjour''\<rparr>) \<noteq> [] \<and>
   count_list
     (snd (snd (handleServerMessage quiet_env turn_complete_message
        (initial\<lparr>currentInputTranscription := ''Bonjour''\<rparr>))))
     (Callback (onTurnComplete Victime)) = 1 \<and>
   buffer Victime
     (fst (snd (handleServerMessage quiet_env turn_complete_message
        (initial\<lparr>currentInputTranscription := ''Bonjour''\<rparr>)))) = []"
proof -
  have h1: "content_flag turnComplete turn_complete_message"
    by (simp add: content_flag_def turn_complete_message_def with_content_def no_content_def)
  have h2: "buffer_at_turn Victime turn_complete_message
     (initial\<lparr>currentInputTranscription := ''Bonjour''\<rparr>) \<noteq> []"
    by (simp add: buffer_at_turn_def buffer_def initial_def)
  show ?thesis
    using h1 h2
      turn_complete_flushes_once [OF h1, of Victime
        "initial\<lparr>currentInputTranscription := ''Bonjour''\<rparr>" quiet_env]
    by simp
qed

section \<open>Playback scheduling\<close>

text \<open>
  Claim C1. Audio chunks of durations \<open>d1..dN\<close> are handled from the start of the session
  (the clock at zero, the output context open), none of them an interruption signal, and
  the output clock never runs past the schedule. Then chunk \<open>i\<close> is started at the sum of
  the durations before it, and no two of the scheduled chunks overlap.
\<close>

theorem gapless_schedule:
  assumes "outputAudioContext s \<noteq> None" "nextStartTime s = 0"
    and "list_all audio_chunk ms" "clock_behind 0 ms"
  shows "start_times (snd (handle_all ms s)) =
           map (\<lambda>i. sum_list (take i (map chunk_duration ms))) [0..<length ms] \<and>
         (\<forall>i < length ms. \<forall>j < length ms. i \<noteq> j \<longrightarrow>
            \<not> overlap (start_times (snd (handle_all ms s)) ! i, chunk_duration (ms ! i))
                       (start_times (snd (handle_all ms s)) ! j, chunk_duration (ms ! j)))"
proof -
  from assms(1) obtain ctx where ctx: "outputAudioContext s = Some ctx" by auto
  have starts: "start_times (snd (handle_all ms s)) =
           map (\<lambda>i. sum_list (take i (map chunk_duration ms))) [0..<length ms]"
    using schedule_from [OF assms(3) ctx] assms(2,4) by simp
  have apart: "\<not> overlap (start_times (snd (handle_all ms s)) ! i, chunk_duration (ms ! i))
                       (start_times (snd (handle_all ms s)) ! j, chunk_duration (ms ! j))"
    if "i < length ms" "j < length ms" "i \<noteq> j" for i j
  proof (cases "i < j")
    case True
    from schedule_ordered [OF assms(3) ctx True that(2)] show ?thesis by simp
  next
    case False
    with that have "j < i" by simp
    from schedule_ordered [OF assms(3) ctx this that(1)] show ?thesis by simp
  qed
  from starts apart show ?thesis by blast
qed

theorem gapless_schedule_witness:
  "outputAudioContext (initial\<lparr>outputAudioContext := Some 3\<rparr>) \<noteq> None \<and>
   nextStartTime (initial\<lparr>outputAudioContext := Some 3\<rparr>) = 0 \<and>
   list_all audio_chunk
     [(audio_message ''AAAA'',
       \<lparr>currentTime = 0, decoded = Some \<lparr>frames = 48000, sampleRate = 24000\<rparr>, new_source = 10\<rparr>),
      (audio_message ''BBBB'',
       \<lparr>currentTime = 1, decoded = Some \<lparr>frames = 72000, sampleRate = 24000\<rparr>, new_source = 11\<rparr>),
      (audio_message ''CCCC'',
       \<lparr>currentTime = 9 / 2, decoded = Some \<lparr>frames = 24000, sampleRate = 24000\<rparr>, new_source = 12\<rparr>)] \<and>
   clock_behind 0
     [(audio_message ''AAAA'',
       \<lparr>currentTime = 0, decoded = Some \<lparr>frames = 48000, sampleRate = 24000\<rparr>, new_source = 10\<rparr>),
      (audio_message ''BBBB'',
       \<lparr>currentTime = 1, decoded = Some \<lparr>frames = 72000, sampleRate = 24000\<rparr>, new_source = 11\<rparr>),
      (audio_message ''CCCC'',
       \<lparr>currentTime = 9 / 2, decoded = Some \<lparr>frames = 24000, sampleRate = 24000\<rparr>, new_source = 12\<rparr>)] \<and>
   start_times (snd (handle_all
     [(audio_message ''AAAA'',
       \<lparr>currentTime = 0, decoded = Some \<lparr>frames = 48000, sampleRate = 24000\<rparr>, new_source = 10\<rparr>),
      (audio_message ''BBBB'',
       \<lparr>currentTime = 1, decoded = Some \<lparr>frames = 72000, sampleRate = 24000\<rparr>, new_source = 11\<rparr>),
      (audio_message ''CCCC'',
       \<lparr>currentTime = 9 / 2, decoded = Some \<lparr>frames = 24000, sampleRate = 24000\<rparr>, new_source = 12\<rparr>)]
     (initial\<lparr>outputAudioContext := Some 3\<rparr>))) = [0, 2, 5]"
proof -
  let ?ms = "[(audio_message ''AAAA'',
       \<lparr>currentTime = 0, decoded = Some \<lparr>frames = 48000, sampleRate = 24000\<rparr>, new_source = 10\<rparr>),
      (audio_message ''BBBB'',
       \<lparr>currentTime = 1, decoded = Some \<lparr>frames = 72000, sampleRate = 24000\<rparr>, new_source = 11\<rparr>),
      (audio_message ''CCCC'',
       \<lparr>currentTime = 9 / 2, decoded = Some \<lparr>frames = 24000, sampleRate = 24000\<rparr>, new_source = 12\<rparr>)]"
  let ?s = "initial\<lparr>outputAudioContext := Some 3\<rparr>"
  have h1: "outputAudioContext ?s \<noteq> None" by simp
  have h2: "nextStartTime ?s = 0" by (simp add: initial_def)
  have h3: "list_all audio_chunk ?ms"
    by (simp add: audio_message_def with_content_def no_content_def content_flag_def
        base64Audio_def content_field_def)
  have ds: "map chunk_duration ?ms = [2, 3, 1]"
    by (simp add: duration_def)
  have h4: "clock_behind 0 ?ms"
    by (simp add: duration_def)
  have upt: "[0..<3] = [0, Suc 0, Suc (Suc 0)]"
    by (simp add: upt_rec)
  have "start_times (snd (handle_all ?ms ?s)) =
           map (\<lambda>i. sum_list (take i (map chunk_duration ?ms))) [0..<length ?ms]"
    using gapless_schedule [OF h1 h2 h3 h4] by blast
  also have "\<dots> = [0, 2, 5]"
    by (simp only: ds) (simp add: upt)
  finally show ?thesis
    using h1 h2 h3 h4 by blast
qed

lemma interruption_with_audio:
  assumes "content_flag interrupted m"
    and "base64Audio m = Some d" "d \<noteq> []" "decoded env = Some buf"
    and "outputAudioContext s = Some ctx"
  shows "start_calls (snd (snd (handleServerMessage env m s))) =
           [(new_source env, max 0 (currentTime env))]"
  using handle_chunk(1) [OF assms(2-5)] assms(1) by (simp add: receive_clock)

text \<open>An interruption message without payload, then a chunk, each handled as a whole.\<close>

lemma interruption_then_chunk:
  assumes "content_flag interrupted m" and "base64Audio m = None"
  shows "stop_calls (snd (snd (handleServerMessage env m s))) = outputSources s \<and>
         outputSources (fst (snd (handleServerMessage env m s))) = [] \<and>
         nextStartTime (fst (snd (handleServerMessage env m s))) = 0 \<and>
         (base64Audio m' = Some d \<and> d \<noteq> [] \<and> decoded env' = Some buf \<and>
          outputAudioContext s \<noteq> None \<longrightarrow>
            start_calls (snd (snd (handleServerMessage env' m'
                (fst (snd (handleServerMessage env m s)))))) =
              [(new_source env', max 0 (currentTime env'))])"
proof -
  let ?s1 = "fst (snd (handleServerMessage env m s))"
  have after: "?s1 = fst (receive m s)"
    by (rule handle_signal(1) [OF assms(2)])
  have stops: "stop_calls (snd (snd (handleServerMessage env m s))) = outputSources s"
    using assms(1) by (simp add: handle_stop_calls)
  have empty: "outputSources ?s1 = []"
    using assms(1) by (simp add: after receive_sources)
  have zero: "nextStartTime ?s1 = 0"
    using assms(1) by (simp add: after receive_clock)
  have "start_calls (snd (snd (handleServerMessage env' m' ?s1))) =
              [(new_source env', max 0 (currentTime env'))]"
    if next_chunk: "base64Audio m' = Some d" "d \<noteq> []" "decoded env' = Some buf"
      and "outputAudioContext s \<noteq> None"
  proof -
    from that(4) obtain ctx where "outputAudioContext s = Some ctx" by auto
    then have ctx: "outputAudioContext ?s1 = Some ctx"
      by (simp add: after receive_resources)
    have "nextStartTime (fst (receive m' ?s1)) = 0"
      using zero by (simp add: receive_clock)
    with handle_chunk(1) [OF next_chunk ctx] show ?thesis by simp
  qed
  with stops empty zero show ?thesis by blast
qed

section \<open>Decoding interleaved with other messages\<close>

text \<open>
  Whatever runs between a message's arrival and the completion of its decode, units are
  started in the order in which their decodes complete, each no earlier than the end of
  the one before: the schedule is chained, hence free of overlap, and with the clock
  behind the schedule the start times are the running sums of the delivered durations.
\<close>

lemma chained_mono: "chained t sched \<Longrightarrow> t' \<le> t \<Longrightarrow> chained t' sched"
  by (cases sched) auto

lemma do_step_context:
  "outputAudioContext (fst (do_step x s)) = outputAudioContext s"
  by (cases x)
     (simp_all add: split_def Let_def audio_begin_snd receive_resources audio_finish_def
        on_ended_def split: option.splits)

lemma do_step_arrives:
  assumes "\<not> content_flag interrupted m"
  shows "nextStartTime s \<le> nextStartTime (fst (do_step (Arrives m now) s))"
    and "start_times (snd (do_step (Arrives m now) s)) = []"
  using assms
  by (simp_all add: split_def Let_def audio_begin_snd receive_clock start_times_def
      receive_start_calls)

lemma do_step_decoded:
  assumes "outputAudioContext s = Some ctx"
  shows "start_times (snd (do_step (Decoded (Some buf) src) s)) = [nextStartTime s]"
    and "nextStartTime (fst (do_step (Decoded (Some buf) src) s)) = nextStartTime s + duration buf"
  using assms by (simp_all add: audio_finish_def start_times_def start_calls_def)

lemma do_step_idle:
  "start_times (snd (do_step (Decoded None src) s)) = []"
  "nextStartTime (fst (do_step (Decoded None src) s)) = nextStartTime s"
  "start_times (snd (do_step (Ended src) s)) = []"
  "nextStartTime (fst (do_step (Ended src) s)) = nextStartTime s"
  by (simp_all add: audio_finish_def on_ended_def start_times_Nil)

lemma do_steps_Cons_snd:
  "snd (do_steps (x # xs) s) = snd (do_step x s) @ snd (do_steps xs (fst (do_step x s)))"
  by (simp add: split_def Let_def)

lemma interleaved_chained:
  assumes "outputAudioContext s = Some ctx" "list_all (\<lambda>x. \<not> interrupts x) xs"
  shows "chained (nextStartTime s)
     (zip (start_times (snd (do_steps xs s))) (concat (map delivered xs)))"
  using assms
proof (induction xs arbitrary: s)
  case Nil
  show ?case by (simp add: start_times_Nil)
next
  case (Cons x xs)
  let ?s1 = "fst (do_step x s)"
  have ctx: "outputAudioContext ?s1 = Some ctx"
    using Cons.prems(1) by (simp add: do_step_context)
  from Cons.prems(2) have rest: "list_all (\<lambda>x. \<not> interrupts x) xs" by simp
  note ih = Cons.IH [OF ctx rest]
  show ?case
  proof (cases x)
    case (Arrives m now)
    with Cons.prems(2) have quiet: "\<not> content_flag interrupted m" by simp
    from chained_mono [OF ih] do_step_arrives [OF quiet, where s = s and now = now] show ?thesis
      by (simp add: Arrives do_steps_Cons_snd start_times_append
          del: do_steps.simps do_step.simps)
  next
    case (Decoded dec src)
    show ?thesis
    proof (cases dec)
      case None
      with ih show ?thesis
        by (simp add: Decoded do_steps_Cons_snd start_times_append do_step_idle
            del: do_steps.simps do_step.simps)
    next
      case (Some buf)
      with ih show ?thesis
        by (simp add: Decoded do_steps_Cons_snd start_times_append
            do_step_decoded [OF Cons.prems(1)] del: do_steps.simps do_step.simps)
    qed
  next
    case (Ended src)
    with ih show ?thesis
      by (simp add: do_steps_Cons_snd start_times_append do_step_idle
          del: do_steps.simps do_step.simps)
  qed
qed

lemma delivered_nonneg: "\<forall>d \<in> set (concat (map delivered xs)). 0 \<le> d"
proof (induction xs)
  case Nil
  show ?case by simp
next
  case (Cons x xs)
  have "\<forall>d \<in> set (delivered x). 0 \<le> d"
    by (cases x rule: delivered.cases) (simp_all add: duration_nonneg)
  with Cons show ?case by auto
qed

lemma interleaved_never_overlaps:
  assumes "outputAudioContext s = Some ctx" "list_all (\<lambda>x. \<not> interrupts x) xs"
    and "i < j" "j < length (zip (start_times (snd (do_steps xs s))) (concat (map delivered xs)))"
  shows "fst (zip (start_times (snd (do_steps xs s))) (concat (map delivered xs)) ! i) +
         snd (zip (start_times (snd (do_steps xs s))) (concat (map delivered xs)) ! i)
           \<le> fst (zip (start_times (snd (do_steps xs s))) (concat (map delivered xs)) ! j)"
proof -
  let ?sched = "zip (start_times (snd (do_steps xs s))) (concat (map delivered xs))"
  have nn: "\<forall>p \<in> set ?sched. 0 \<le> snd p"
    using delivered_nonneg [of xs] by (auto dest!: set_zip_rightD)
  from chained_ordered [OF interleaved_chained [OF assms(1,2)] nn assms(3,4)]
  show ?thesis .
qed

lemma handle_as_steps:
  "snd (handleServerMessage env m s) =
     (if fst (audio_begin (currentTime env) m (fst (receive m s)))
      then do_steps [Arrives m (currentTime env), Decoded (decoded env) (new_source env)] s
      else do_steps [Arrives m (currentTime env)] s)"
  by (simp add: handleServerMessage_def playback_def split_def Let_def)

lemma do_step_arrives_behind:
  assumes "\<not> content_flag interrupted m" "now \<le> nextStartTime s"
  shows "nextStartTime (fst (do_step (Arrives m now) s)) = nextStartTime s"
  using assms by (simp add: split_def Let_def audio_begin_snd receive_clock max_def)

lemma prefix_sums_Cons:
  "map (\<lambda>i. t + sum_list (take i (d # ds))) [0..<Suc (length ds)] =
     t # map (\<lambda>i. (t + d) + sum_list (take i ds)) [0..<length ds]"
  by (simp add: map_upt_Suc add.assoc del: upt_Suc)

lemma interleaved_schedule_from:
  assumes "outputAudioContext s = Some ctx" "list_all (\<lambda>x. \<not> interrupts x) xs"
    and "steps_clock_behind (nextStartTime s) xs"
  shows "start_times (snd (do_steps xs s)) =
     map (\<lambda>i. nextStartTime s + sum_list (take i (concat (map delivered xs))))
       [0..<length (concat (map delivered xs))]"
  using assms
proof (induction xs arbitrary: s)
  case Nil
  show ?case by (simp add: start_times_Nil)
next
  case (Cons x xs)
  let ?s1 = "fst (do_step x s)"
  have ctx: "outputAudioContext ?s1 = Some ctx"
    using Cons.prems(1) by (simp add: do_step_context)
  from Cons.prems(2) have rest: "list_all (\<lambda>x. \<not> interrupts x) xs" by simp
  show ?case
  proof (cases x)
    case (Arrives m now)
    with Cons.prems have quiet: "\<not> content_flag interrupted m" and now: "now \<le> nextStartTime s"
      and later: "steps_clock_behind (nextStartTime s) xs"
      by simp_all
    have same: "nextStartTime ?s1 = nextStartTime s"
      using do_step_arrives_behind [OF quiet now] by (simp add: Arrives)
    from Cons.IH [OF ctx rest] later same do_step_arrives(2) [OF quiet, where s = s and now = now]
    show ?thesis
      by (simp add: Arrives do_steps_Cons_snd start_times_append
          del: do_steps.simps do_step.simps)
  next
    case (Decoded dec src)
    show ?thesis
    proof (cases dec)
      case None
      with Cons.prems(3) Decoded have later: "steps_clock_behind (nextStartTime s) xs" by simp
      from Cons.IH [OF ctx rest] later show ?thesis
        by (simp add: Decoded None do_steps_Cons_snd start_times_append do_step_idle
            del: do_steps.simps do_step.simps)
    next
      case (Some buf)
      note st = do_step_decoded [OF Cons.prems(1), of buf src]
      from Cons.prems(3) Decoded Some
      have later: "steps_clock_behind (nextStartTime s + duration buf) xs" by simp
      have ih: "start_times (snd (do_steps xs (fst (do_step (Decoded (Some buf) src) s)))) =
          map (\<lambda>i. (nextStartTime s + duration buf) + sum_list (take i (concat (map delivered xs))))
            [0..<length (concat (map delivered xs))]"
        using Cons.IH [OF ctx rest] later st(2) by (simp add: Decoded Some)
      show ?thesis
        using prefix_sums_Cons [of "nextStartTime s" "duration buf" "concat (map delivered xs)"]
        by (simp add: Decoded Some do_steps_Cons_snd start_times_append st(1) ih
            del: do_steps.simps do_step.simps upt_Suc)
    qed
  next
    case (Ended src)
    with Cons.prems(3) have later: "steps_clock_behind (nextStartTime s) xs" by simp
    from Cons.IH [OF ctx rest] later show ?thesis
      by (simp add: Ended do_steps_Cons_snd start_times_append do_step_idle
          del: do_steps.simps do_step.simps)
  qed
qed

text \<open>Two chunks of two and of three seconds arrive in this order and the second is
  decoded first: it is the second that starts at zero.\<close>

lemma decode_order_decides:
  "snd (do_steps
     [Arrives (audio_message ''AAAA'') 0, Arrives (audio_message ''BBBB'') 0,
      Decoded (Some \<lparr>frames = 72000, sampleRate = 24000\<rparr>) 11,
      Decoded (Some \<lparr>frames = 48000, sampleRate = 24000\<rparr>) 10]
     (initial\<lparr>outputAudioContext := Some 3\<rparr>)) =
   [CreateBufferSource 3, SetBuffer 11 \<lparr>frames = 72000, sampleRate = 24000\<rparr>,
    ConnectSource 11 3, AddEndedListener 11, StartSource 11 0,
    CreateBufferSource 3, SetBuffer 10 \<lparr>frames = 48000, sampleRate = 24000\<rparr>,
    ConnectSource 10 3, AddEndedListener 10, StartSource 10 3]"
  by (simp add: audio_message_def with_content_def no_content_def receive_def
      on_inputTranscription_def on_outputTranscription_def on_turnComplete_def
      on_interrupted_def content_field_def content_flag_def audio_begin_def base64Audio_def
      audio_finish_def initial_def duration_def set_add_def)

section \<open>Session control and teardown\<close>

lemma stopSession_fst: "fst (stopSession s) = fst (cleanup s)"
  by (simp add: stopSession_def split_def Let_def)

lemma stopSession_snd: "snd (stopSession s) = opt_call CloseSession (session s) @ snd (cleanup s)"
  by (simp add: stopSession_def split_def Let_def)

lemma torn_down_receive: "torn_down s \<Longrightarrow> torn_down (fst (receive m s))"
  by (simp add: torn_down_def receive_resources receive_sources)

lemma schedules_transcript: "list_all (\<lambda>e. \<not> schedules e) (transcript_effects S m s)"
  by (simp add: transcript_effects_def split: option.splits)

lemma schedules_flushed: "list_all (\<lambda>e. \<not> schedules e) (flushed S b)"
  by (simp add: flushed_def)

lemma schedules_stops: "list_all (\<lambda>e. \<not> schedules e) (map StopSource xs)"
  by (induction xs) simp_all

lemma schedules_receive: "list_all (\<lambda>e. \<not> schedules e) (snd (receive m s))"
  by (simp add: receive_snd schedules_transcript schedules_flushed schedules_stops)

lemma handle_torn_down:
  assumes "torn_down s"
  shows "torn_down (fst (snd (handleServerMessage env m s)))"
    and "snd (snd (handleServerMessage env m s)) = snd (receive m s)"
proof -
  have "outputAudioContext (fst (receive m s)) = None"
    using assms by (simp add: receive_resources torn_down_def)
  then have pb: "playback env m (fst (receive m s)) = (Done, fst (receive m s), [])"
    by (rule playback_torn_down)
  show "torn_down (fst (snd (handleServerMessage env m s)))"
    using torn_down_receive [OF assms] by (simp add: handle_state pb)
  show "snd (snd (handleServerMessage env m s)) = snd (receive m s)"
    by (simp add: handle_effects pb)
qed

lemma handle_all_torn_down:
  assumes "torn_down s"
  shows "torn_down (fst (handle_all ms s)) \<and>
         list_all (\<lambda>e. \<not> schedules e) (snd (handle_all ms s))"
  using assms
proof (induction ms arbitrary: s)
  case Nil
  then show ?case by simp
next
  case (Cons c rest)
  obtain m env where c: "c = (m, env)" by (cases c)
  note h = handle_torn_down [OF Cons.prems, of env m]
  from Cons.IH [OF h(1)] show ?case
    by (simp add: c handle_all_Cons_fst handle_all_Cons_snd h(2) schedules_receive
        del: handle_all.simps)
qed

lemma cleanup_buffer: "buffer S (fst (cleanup s)) = buffer S s"
  by (cases S) (simp_all add: buffer_def cleanup_def)

lemma cleanup_idempotent: "cleanup (fst (cleanup s)) = (fst (cleanup s), [])"
  by (rule cleanup_of_torn_down) (rule cleanup_torn_down)

lemma start_failed_fst: "fst (start_failed e s) = fst (cleanup s)"
  by (simp add: start_failed_def split_def Let_def)

lemma start_failed_snd:
  "snd (start_failed e s) = Callback (onError (start_error_message e)) # snd (cleanup s)"
  by (simp add: start_failed_def split_def Let_def)

lemma startSession_denied:
  assumes "microphone env = Inl e"
  shows "startSession env evs s =
     (fst (cleanup s), GetUserMedia # Callback (onError (start_error_message e)) # snd (cleanup s))"
  using assms
  by (simp add: startSession_def startSession_begin_def split_def Let_def start_failed_fst
      start_failed_snd)

lemma cleanup_effects_cases:
  "e \<in> set (snd (cleanup s)) \<Longrightarrow>
     (\<exists>h. e = Disconnect h) \<or> (\<exists>h. e = StopTracks h) \<or> (\<exists>h. e = CloseContext h) \<or>
     (\<exists>h. e = StopSource h)"
  by (auto simp: cleanup_def opt_call_def split: option.splits)

lemma wires_transcript: "list_all (\<lambda>e. \<not> wires e) (transcript_effects S m s)"
  by (simp add: transcript_effects_def split: option.splits)

lemma wires_flushed: "list_all (\<lambda>e. \<not> wires e) (flushed S b)"
  by (simp add: flushed_def)

lemma wires_stops: "list_all (\<lambda>e. \<not> wires e) (map StopSource xs)"
  by (induction xs) simp_all

lemma wires_receive: "list_all (\<lambda>e. \<not> wires e) (snd (receive m s))"
  by (simp add: receive_snd wires_transcript wires_flushed wires_stops)

lemma wires_audio_finish: "list_all (\<lambda>e. \<not> wires e) (snd (snd (audio_finish dec src s)))"
  by (simp add: audio_finish_def split: option.splits)

lemma wires_playback: "list_all (\<lambda>e. \<not> wires e) (snd (snd (playback env m s)))"
  by (simp add: playback_def split_def Let_def wires_audio_finish)

lemma wires_handle: "list_all (\<lambda>e. \<not> wires e) (snd (snd (handleServerMessage env m s)))"
  by (simp add: handle_effects wires_receive wires_playback)

lemma wires_cleanup: "list_all (\<lambda>e. \<not> wires e) (snd (cleanup s))"
  using cleanup_effects_cases [of _ s] by (fastforce simp: list_all_iff)

lemma unwired_cleanup: "unwired (fst (cleanup s))"
  by (simp add: unwired_def cleanup_def)

lemma unwired_playback: "unwired (fst (snd (playback env m s))) = unwired s"
  by (simp add: playback_def split_def Let_def audio_begin_snd audio_finish_def unwired_def
      split: option.splits)

lemma unwired_handle: "unwired (fst (snd (handleServerMessage env m s))) = unwired s"
  by (simp add: handle_state unwired_playback) (simp add: unwired_def receive_resources)

lemma fire_without_open:
  assumes "\<not> is_open ev" "unwired s"
  shows "list_all (\<lambda>e. \<not> wires e) (snd (fire ev s)) \<and> unwired (fst (fire ev s))"
proof (cases ev)
  case (Open node processor)
  with assms(1) show ?thesis by simp
next
  case (Message m env)
  with assms(2) show ?thesis by (simp add: wires_handle unwired_handle)
next
  case (ErrorEvent msg)
  with assms(2) show ?thesis by (simp add: on_error_def)
next
  case CloseEvent
  then show ?thesis
    by (simp add: on_close_def split_def Let_def wires_cleanup unwired_cleanup)
qed

lemma fire_all_without_open:
  assumes "list_all (\<lambda>ev. \<not> is_open ev) evs" "unwired s"
  shows "list_all (\<lambda>e. \<not> wires e) (snd (fire_all evs s)) \<and> unwired (fst (fire_all evs s))"
  using assms
proof (induction evs arbitrary: s)
  case Nil
  then show ?case by simp
next
  case (Cons ev evs)
  from Cons.prems have quiet: "\<not> is_open ev" and rest: "list_all (\<lambda>ev. \<not> is_open ev) evs"
    by simp_all
  note step = fire_without_open [OF quiet Cons.prems(2)]
  from Cons.IH [OF rest] step show ?case
    by (simp add: split_def Let_def)
qed

lemma startSession_finish_unwired:
  assumes "unwired s"
  shows "list_all (\<lambda>e. \<not> wires e) (snd (startSession_finish r s)) \<and>
         unwired (fst (startSession_finish r s))"
  using assms
  by (cases r)
     (simp_all add: startSession_finish_def start_failed_fst start_failed_snd wires_cleanup
        unwired_cleanup, simp add: unwired_def)

lemma startSession_begin_ok:
  assumes "microphone env = Inr stream" "capture_context env = Inr ictx"
    and "playback_context env = Inr octx"
  shows "startSession_begin env s =
           (True,
            s\<lparr>mediaStream := Some stream, inputAudioContext := Some ictx,
              outputAudioContext := Some octx, sessionPromise := Some (promise env)\<rparr>,
            [GetUserMedia, NewAudioContext 16000, NewAudioContext 24000,
             LiveConnect connect_request])"
  using assms by (simp add: startSession_begin_def)

text \<open>
  Claim C6, as the code has it. The \<open>onclose\<close> handler reports \<open>onClose\<close> and then runs
  teardown once; the \<open>onerror\<close> handler only reports the error through \<open>onError\<close> and
  leaves the state as it is; teardown is idempotent: run from the state it produces, it
  changes nothing and performs no call.
\<close>

theorem close_tears_down_once:
  "fire CloseEvent s = (fst (cleanup s), Callback onClose # snd (cleanup s)) \<and>
   fire (ErrorEvent msg) s = (s, [Callback (onError (''Erreur de connexion : '' @ msg))]) \<and>
   cleanup (fst (cleanup s)) = (fst (cleanup s), [])"
  by (simp add: on_close_def on_error_def split_def Let_def cleanup_idempotent)

text \<open>The claim as stated fails for \<open>onerror\<close>: on a running session the handler releases
  nothing.\<close>

theorem error_event_no_teardown_counterexample:
  "fire (ErrorEvent ''reset'') running = (running, [Callback (onError ''Erreur de connexion : reset'')]) \<and>
   \<not> torn_down (fst (fire (ErrorEvent ''reset'') running)) \<and>
   fst (fire (ErrorEvent ''reset'') running) \<noteq> fst (cleanup running)"
proof -
  have same: "fire (ErrorEvent ''reset'') running =
      (running, [Callback (onError ''Erreur de connexion : reset'')])"
    by (simp add: on_error_def)
  have held: "mediaStream running = Some 1"
    by (simp add: running_def)
  then have "\<not> torn_down running"
    by (simp add: torn_down_def)
  moreover from this have "running \<noteq> fst (cleanup running)"
    using cleanup_torn_down [of running] by auto
  ultimately show ?thesis
    using same by simp
qed

text \<open>
  Claim C7. When the microphone is refused (\<open>getUserMedia\<close> rejects with an error object),
  \<open>startSession\<close> reports the start-up message followed by the error's own, then runs
  teardown: every resource field, the two contexts and the session handle among them, is
  null. \<open>getUserMedia\<close> has been called once, no audio context has been constructed and
  no connection requested.
\<close>

theorem microphone_denied:
  assumes "microphone env = Inl (ErrorObject msg)"
  shows "snd (startSession env evs s) =
           GetUserMedia #
           Callback (onError (''Impossible de d'' @ [CHR 0xE9] @ ''marrer la session : '' @ msg)) #
           snd (cleanup s) \<and>
         torn_down (fst (startSession env evs s)) \<and>
         count_list (snd (startSession env evs s)) GetUserMedia = 1 \<and>
         (\<forall>rate. NewAudioContext rate \<notin> set (snd (startSession env evs s))) \<and>
         (\<forall>req. LiveConnect req \<notin> set (snd (startSession env evs s)))"
proof -
  note run = startSession_denied [OF assms, of evs s]
  have none: "GetUserMedia \<notin> set (snd (cleanup s))"
    "NewAudioContext rate \<notin> set (snd (cleanup s))"
    "LiveConnect req \<notin> set (snd (cleanup s))" for rate req
    using cleanup_effects_cases [of _ s] by blast+
  have "count_list (snd (cleanup s)) GetUserMedia = 0"
    using none(1) by (simp add: count_list_0_iff)
  then show ?thesis
    using none by (simp add: run start_error_message_def cleanup_torn_down)
qed

theorem microphone_denied_witness:
  "microphone \<lparr>microphone = Inl (ErrorObject ''Permission denied''), capture_context = Inr 2,
      playback_context = Inr 3, promise = 4, connected = Inr 5\<rparr>
     = Inl (ErrorObject ''Permission denied'') \<and>
   startSession \<lparr>microphone = Inl (ErrorObject ''Permission denied''), capture_context = Inr 2,
      playback_context = Inr 3, promise = 4, connected = Inr 5\<rparr> [] initial =
     (initial,
      [GetUserMedia,
       Callback (onError (''Impossible de d'' @ [CHR 0xE9] @
         ''marrer la session : Permission denied''))]) \<and>
   torn_down initial"
proof -
  let ?env = "\<lparr>microphone = Inl (ErrorObject ''Permission denied''), capture_context = Inr 2,
      playback_context = Inr 3, promise = 4, connected = Inr 5\<rparr>"
  have h: "microphone ?env = Inl (ErrorObject ''Permission denied'')" by simp
  have init: "cleanup initial = (initial, [])"
    by (simp add: cleanup_of_torn_down torn_down_def initial_def)
  have "fst (startSession ?env [] initial) = initial"
    by (simp add: startSession_denied [OF h] init)
  moreover have "snd (startSession ?env [] initial) =
      [GetUserMedia,
       Callback (onError (''Impossible de d'' @ [CHR 0xE9] @
         ''marrer la session : Permission denied''))]"
    using microphone_denied [OF h, of "[]" initial] by (simp add: init)
  moreover have "torn_down initial"
    by (simp add: torn_down_def initial_def)
  ultimately show ?thesis
    using h by (simp add: prod_eq_iff)
qed

text \<open>
  Claim C8. When the microphone and both contexts are obtained, \<open>startSession\<close> performs,
  in this order, \<open>getUserMedia\<close>, the construction of a context at 16 kHz and of one at
  24 kHz, and one \<open>connect\<close> with audio as response modality, both transcriptions on and
  the fixed instruction. As long as the connection has not fired \<open>onopen\<close>, nothing wires
  the capture path; \<open>onopen\<close> is what creates and connects the two nodes.
\<close>

theorem startSession_order:
  assumes "microphone env = Inr stream" "capture_context env = Inr ictx"
    and "playback_context env = Inr octx"
  shows "startSession_begin env s =
           (True,
            s\<lparr>mediaStream := Some stream, inputAudioContext := Some ictx,
              outputAudioContext := Some octx, sessionPromise := Some (promise env)\<rparr>,
            [GetUserMedia, NewAudioContext 16000, NewAudioContext 24000,
             LiveConnect connect_request]) \<and>
         config connect_request =
           \<lparr>responseModalities = [AUDIO], inputAudioTranscription = True,
            outputAudioTranscription = True, systemInstruction = fixed_instruction\<rparr> \<and>
         (unwired s \<and> list_all (\<lambda>ev. \<not> is_open ev) evs \<longrightarrow>
            list_all (\<lambda>e. \<not> wires e) (snd (startSession env evs s)) \<and>
            unwired (fst (startSession env evs s))) \<and>
         fire (Open node processor) (fst (snd (startSession_begin env s))) =
           ((fst (snd (startSession_begin env s)))
              \<lparr>sourceNode := Some node, scriptProcessor := Some processor\<rparr>,
            [CreateMediaStreamSource ictx stream, CreateScriptProcessor ictx 4096 1 1,
             SetOnAudioProcess processor, ConnectNode node processor,
             ConnectDestination processor ictx])"
proof -
  let ?s1 = "s\<lparr>mediaStream := Some stream, inputAudioContext := Some ictx,
              outputAudioContext := Some octx, sessionPromise := Some (promise env)\<rparr>"
  note started = startSession_begin_ok [OF assms, of s]
  have cfg: "config connect_request =
           \<lparr>responseModalities = [AUDIO], inputAudioTranscription = True,
            outputAudioTranscription = True, systemInstruction = fixed_instruction\<rparr>"
    by (simp add: connect_request_def)
  have quiet: "list_all (\<lambda>e. \<not> wires e) (snd (startSession env evs s)) \<and>
            unwired (fst (startSession env evs s))"
    if "unwired s" "list_all (\<lambda>ev. \<not> is_open ev) evs"
  proof -
    from that(1) have u1: "unwired ?s1" by (simp add: unwired_def)
    note mid = fire_all_without_open [OF that(2) u1]
    note fin = startSession_finish_unwired [of "fst (fire_all evs ?s1)" "connected env"]
    from mid fin show ?thesis
      by (simp add: startSession_def started split_def Let_def)
  qed
  have "fire (Open node processor) ?s1 =
           (?s1\<lparr>sourceNode := Some node, scriptProcessor := Some processor\<rparr>,
            [CreateMediaStreamSource ictx stream, CreateScriptProcessor ictx 4096 1 1,
             SetOnAudioProcess processor, ConnectNode node processor,
             ConnectDestination processor ictx])"
    by (simp add: on_open_def)
  with started cfg quiet show ?thesis
    by simp
qed

theorem startSession_order_witness:
  "microphone \<lparr>microphone = Inr 1, capture_context = Inr 2, playback_context = Inr 3,
      promise = 4, connected = Inr 5\<rparr> = Inr 1 \<and>
   capture_context \<lparr>microphone = Inr 1, capture_context = Inr 2, playback_context = Inr 3,
      promise = 4, connected = Inr 5\<rparr> = Inr 2 \<and>
   playback_context \<lparr>microphone = Inr 1, capture_context = Inr 2, playback_context = Inr 3,
      promise = 4, connected = Inr 5\<rparr> = Inr 3 \<and>
   unwired initial \<and>
   list_all (\<lambda>ev. \<not> is_open ev)
     [Message (partial_message Victime ''Bonjour'') quiet_env, ErrorEvent ''reset''] \<and>
   snd (snd (startSession_begin \<lparr>microphone = Inr 1, capture_context = Inr 2,
      playback_context = Inr 3, promise = 4, connected = Inr 5\<rparr> initial)) =
     [GetUserMedia, NewAudioContext 16000, NewAudioContext 24000, LiveConnect connect_request] \<and>
   list_all (\<lambda>e. \<not> wires e)
     (snd (startSession \<lparr>microphone = Inr 1, capture_context = Inr 2,
        playback_context = Inr 3, promise = 4, connected = Inr 5\<rparr>
        [Message (partial_message Victime ''Bonjour'') quiet_env, ErrorEvent ''reset'']
        initial)) \<and>
   snd (fire (Open 6 7) (fst (snd (startSession_begin \<lparr>microphone = Inr 1,
      capture_context = Inr 2, playback_context = Inr 3, promise = 4,
      connected = Inr 5\<rparr> initial)))) =
     [CreateMediaStreamSource 2 1, CreateScriptProcessor 2 4096 1 1, SetOnAudioProcess 7,
      ConnectNode 6 7, ConnectDestination 7 2]"
proof -
  let ?env = "\<lparr>microphone = Inr 1, capture_context = Inr 2, playback_context = Inr 3,
      promise = 4, connected = Inr 5\<rparr>"
  let ?evs = "[Message (partial_message Victime ''Bonjour'') quiet_env, ErrorEvent ''reset'']"
  have h1: "microphone ?env = Inr 1" by simp
  have h2: "capture_context ?env = Inr 2" by simp
  have h3: "playback_context ?env = Inr 3" by simp
  have h4: "unwired initial" by (simp add: unwired_def initial_def)
  have h5: "list_all (\<lambda>ev. \<not> is_open ev) ?evs" by simp
  note order = startSession_order [OF h1 h2 h3, of initial ?evs 6 7]
  from order have "snd (snd (startSession_begin ?env initial)) =
     [GetUserMedia, NewAudioContext 16000, NewAudioContext 24000, LiveConnect connect_request]"
    by simp
  moreover from order h4 h5 have "list_all (\<lambda>e. \<not> wires e) (snd (startSession ?env ?evs initial))"
    by blast
  moreover have "snd (fire (Open 6 7) (fst (snd (startSession_begin ?env initial)))) =
     [CreateMediaStreamSource 2 1, CreateScriptProcessor 2 4096 1 1, SetOnAudioProcess 7,
      ConnectNode 6 7, ConnectDestination 7 2]"
    by (simp only: order [THEN conjunct2, THEN conjunct2, THEN conjunct2] snd_conv)
  ultimately show ?thesis
    using h1 h2 h3 h4 h5 by blast
qed

section \<open>Everything that can run, in any order\<close>

lemma startSession_begin_acquired:
  "startSession_begin env s =
     (let (waiting, s', es) = startSession_acquired env s in (waiting, s', GetUserMedia # es))"
  by (simp add: startSession_begin_def startSession_acquired_def split_def Let_def
      split: sum.splits)

lemma happen_all_Cons_fst: "fst (happen_all (h # hs) s) = fst (happen_all hs (fst (happen h s)))"
  by (simp add: split_def Let_def)

lemma happen_all_Cons_snd:
  "snd (happen_all (h # hs) s) = snd (happen h s) @ snd (happen_all hs (fst (happen h s)))"
  by (simp add: split_def Let_def)

lemma happen_all_append_fst:
  "fst (happen_all (hs @ hs') s) = fst (happen_all hs' (fst (happen_all hs s)))"
  by (induction hs arbitrary: s) (simp_all add: split_def Let_def)

lemma happen_all_append_snd:
  "snd (happen_all (hs @ hs') s) =
     snd (happen_all hs s) @ snd (happen_all hs' (fst (happen_all hs s)))"
  by (induction hs arbitrary: s) (simp_all add: split_def Let_def)

lemma schedules_cleanup: "list_all (\<lambda>e. \<not> schedules e) (snd (cleanup s))"
  using cleanup_effects_cases [of _ s] by (fastforce simp: list_all_iff)

lemma silent_cleanup: "silent (fst (cleanup s))"
  by (simp add: silent_def cleanup_def)

lemma silent_step:
  assumes "silent s"
  shows "silent (fst (do_step x s)) \<and> list_all (\<lambda>e. \<not> schedules e) (snd (do_step x s))"
proof (cases x)
  case (Arrives m now)
  have ctx: "outputAudioContext (fst (receive m s)) = None"
    using assms by (simp add: receive_resources silent_def)
  then have "snd (audio_begin now m (fst (receive m s))) = fst (receive m s)"
    by (simp add: audio_begin_snd audio_begin_fst split: option.splits)
  moreover have "silent (fst (receive m s))"
    using assms ctx by (simp add: silent_def receive_sources)
  ultimately show ?thesis
    by (simp add: Arrives split_def Let_def schedules_receive)
next
  case (Decoded dec src)
  with assms show ?thesis
    by (simp add: audio_finish_def silent_def split: option.splits)
next
  case (Ended src)
  with assms show ?thesis
    by (simp add: on_ended_def silent_def set_delete_def)
qed

lemma silent_happen:
  assumes "silent s" "\<not> acquires h"
  shows "silent (fst (happen h s)) \<and> list_all (\<lambda>e. \<not> schedules e) (snd (happen h s))"
proof (cases h)
  case (Handler x)
  with silent_step [OF assms(1), of x] show ?thesis by simp
next
  case (Opens node processor)
  with assms(1) show ?thesis
    by (simp add: on_open_def silent_def split: option.splits)
next
  case (Errs msg)
  with assms(1) show ?thesis by (simp add: on_error_def)
next
  case Closes
  then show ?thesis
    by (simp add: on_close_def split_def Let_def silent_cleanup schedules_cleanup)
next
  case Stops
  then show ?thesis
    by (simp add: stopSession_fst stopSession_snd silent_cleanup schedules_cleanup
        opt_call_def split: option.splits)
next
  case Starts
  with assms(1) show ?thesis by simp
next
  case (Acquires env)
  with assms(2) show ?thesis by simp
next
  case (Connects r)
  show ?thesis
  proof (cases r)
    case (Inl e)
    then show ?thesis
      by (simp add: Connects startSession_finish_def start_failed_fst start_failed_snd
          silent_cleanup schedules_cleanup)
  next
    case (Inr sess)
    with assms(1) show ?thesis
      by (simp add: Connects startSession_finish_def silent_def)
  qed
qed

lemma silent_happen_all:
  assumes "silent s" "list_all (\<lambda>h. \<not> acquires h) hs"
  shows "silent (fst (happen_all hs s)) \<and>
         list_all (\<lambda>e. \<not> schedules e) (snd (happen_all hs s))"
  using assms
proof (induction hs arbitrary: s)
  case Nil
  then show ?case by simp
next
  case (Cons h hs)
  from Cons.prems have one: "\<not> acquires h" and rest: "list_all (\<lambda>h. \<not> acquires h) hs"
    by simp_all
  note step = silent_happen [OF Cons.prems(1) one]
  from Cons.IH [OF _ rest, of "fst (happen h s)"] step show ?case
    by (simp add: happen_all_Cons_fst happen_all_Cons_snd del: happen_all.simps)
qed

text \<open>
  Claim C5, as the code has it. After \<open>stopSession\<close>, and for as long as no run of
  \<open>startSession\<close> resumes from its wait for the microphone (line 38), whatever else runs
  schedules no playback unit: no source is created, given a buffer or started, the
  output context field stays null and the live set empty, and a decode that completes
  changes nothing. The transcript stages are not guarded: a partial transcript handled
  after teardown is still appended to its buffer and reported through
  \<open>onTranscriptUpdate\<close>.
\<close>

theorem stopped_session_schedules_nothing:
  assumes "list_all (\<lambda>h. \<not> acquires h) hs"
  shows "list_all (\<lambda>e. \<not> schedules e) (snd (happen_all hs (fst (stopSession s)))) \<and>
         outputSources (fst (happen_all hs (fst (stopSession s)))) = [] \<and>
         outputAudioContext (fst (happen_all hs (fst (stopSession s)))) = None \<and>
         audio_finish dec src (fst (happen_all hs (fst (stopSession s)))) =
           (Failed, fst (happen_all hs (fst (stopSession s))), []) \<and>
         updates_for S (snd (snd (handleServerMessage env m (fst (stopSession s))))) =
           (case partial_text S m of None \<Rightarrow> [] | Some t \<Rightarrow> [(buffer S s @ t, False)])"
proof -
  have "silent (fst (stopSession s))"
    by (simp add: stopSession_fst silent_cleanup)
  note after = silent_happen_all [OF this assms]
  then have ctx: "outputAudioContext (fst (happen_all hs (fst (stopSession s)))) = None"
    and live: "outputSources (fst (happen_all hs (fst (stopSession s)))) = []"
    by (simp_all add: silent_def)
  have late: "audio_finish dec src (fst (happen_all hs (fst (stopSession s)))) =
           (Failed, fst (happen_all hs (fst (stopSession s))), [])"
    using ctx by (simp add: audio_finish_def split: option.splits)
  have "updates_for S (snd (snd (handleServerMessage env m (fst (stopSession s))))) =
     (case partial_text S m of None \<Rightarrow> [] | Some t \<Rightarrow> [(buffer S s @ t, False)])"
    by (simp add: handle_updates stopSession_fst cleanup_buffer cong: option.case_cong)
  with after ctx live late show ?thesis
    by blast
qed

theorem stopped_session_schedules_nothing_witness:
  "list_all (\<lambda>h. \<not> acquires h)
     [Handler (Arrives (audio_message ''AAAA'') 1),
      Handler (Decoded (Some \<lparr>frames = 24000, sampleRate = 24000\<rparr>) 12),
      Connects (Inr 5), Opens 6 7, Closes] \<and>
   list_all (\<lambda>e. \<not> schedules e)
     (snd (happen_all
        [Handler (Arrives (audio_message ''AAAA'') 1),
         Handler (Decoded (Some \<lparr>frames = 24000, sampleRate = 24000\<rparr>) 12),
         Connects (Inr 5), Opens 6 7, Closes]
        (fst (stopSession running)))) \<and>
   updates_for Victime
     (snd (snd (handleServerMessage quiet_env (partial_message Victime ''Bonjour'')
        (fst (stopSession running))))) = [(''Bonjour'', False)]"
proof -
  let ?hs = "[Handler (Arrives (audio_message ''AAAA'') 1),
      Handler (Decoded (Some \<lparr>frames = 24000, sampleRate = 24000\<rparr>) 12),
      Connects (Inr 5), Opens 6 7, Closes]"
  have h: "list_all (\<lambda>h. \<not> acquires h) ?hs" by simp
  have said: "partial_text Victime (partial_message Victime ''Bonjour'') = Some ''Bonjour''"
    by (simp add: partial_text_def partial_message_def with_content_def no_content_def
        content_field_def)
  have empty: "buffer Victime running = []"
    by (simp add: buffer_def running_def initial_def)
  note inst = stopped_session_schedules_nothing [OF h, of running _ _ Victime quiet_env
      "partial_message Victime ''Bonjour''"]
  from inst have "list_all (\<lambda>e. \<not> schedules e) (snd (happen_all ?hs (fst (stopSession running))))"
    by blast
  moreover from inst have "updates_for Victime
     (snd (snd (handleServerMessage quiet_env (partial_message Victime ''Bonjour'')
        (fst (stopSession running))))) = [(''Bonjour'', False)]"
    by (simp only: said empty) simp
  ultimately show ?thesis
    using h by blast
qed

text \<open>The claim as stated fails: after \<open>stopSession\<close> on a running session, a partial
  transcript is handled as before and \<open>onTranscriptUpdate\<close> is called.\<close>

theorem stopped_session_still_reports_counterexample:
  "snd (snd (handleServerMessage quiet_env (partial_message Victime ''Bonjour'')
      (fst (stopSession running)))) =
     [Callback (onTranscriptUpdate ''Bonjour'' False Victime)] \<and>
   currentInputTranscription (fst (snd (handleServerMessage quiet_env
      (partial_message Victime ''Bonjour'') (fst (stopSession running))))) = ''Bonjour'' \<and>
   currentInputTranscription (fst (stopSession running)) = []"
  by (simp add: handle_effects handle_state receive_snd receive_fst playback_none
      stopSession_fst cleanup_def running_def initial_def partial_message_def
      with_content_def no_content_def base64Audio_def content_field_def content_flag_def
      transcript_effects_def partial_text_def buffer_def appended_def flushed_def)

text \<open>A stop while the start-up still waits for the microphone tears down nothing; the
  start-up then goes on, and a chunk that arrives afterwards is scheduled.\<close>

lemma stop_before_microphone:
  "start_calls (snd (happen_all
     [Starts, Stops,
      Acquires \<lparr>microphone = Inr 1, capture_context = Inr 2, playback_context = Inr 3,
        promise = 4, connected = Inr 5\<rparr>,
      Handler (Arrives (audio_message ''AAAA'') 1),
      Handler (Decoded (Some \<lparr>frames = 24000, sampleRate = 24000\<rparr>) 12)]
     initial)) = [(12, 1)]"
  by (simp add: start_calls_def stopSession_def cleanup_def opt_call_def initial_def
      startSession_acquired_def audio_message_def with_content_def no_content_def receive_def
      on_inputTranscription_def on_outputTranscription_def on_turnComplete_def
      on_interrupted_def content_field_def content_flag_def audio_begin_def base64Audio_def
      audio_finish_def set_add_def)

lemma latest_append: "latest t (rs @ rs') = latest (latest t rs) rs'"
  by (simp add: latest_def)

lemma latest_Nil: "latest t [] = t"
  by (simp add: latest_def)

lemma latest_single: "latest t [r] = max t r"
  by (simp add: latest_def max.commute)

lemma do_step_start_calls_arrives: "start_calls (snd (do_step (Arrives m now) s)) = []"
  by (simp add: split_def Let_def receive_start_calls)

lemma do_step_arrives_clock:
  assumes "outputAudioContext s = Some ctx"
  shows "nextStartTime (fst (do_step (Arrives m now) s)) =
           latest (nextStartTime (fst (receive m s))) (reading (Handler (Arrives m now)))"
proof -
  have "fst (audio_begin now m (fst (receive m s))) = has_payload m"
    using assms by (simp add: audio_begin_fst receive_resources has_payload_def
        cong: option.case_cong)
  then show ?thesis
    by (simp add: split_def Let_def audio_begin_snd latest_Nil latest_single)
qed

lemma calm_step:
  assumes "outputAudioContext s = Some ctx" "\<not> interrupts x" "delivered x = []"
  shows "start_calls (snd (do_step x s)) = []"
    and "nextStartTime (fst (do_step x s)) = latest (nextStartTime s) (reading (Handler x))"
proof -
  show "start_calls (snd (do_step x s)) = []"
  proof (cases x)
    case (Arrives m now)
    then show ?thesis by (simp only: do_step_start_calls_arrives)
  next
    case (Decoded dec src)
    with assms(3) have "dec = None" by (cases dec) simp_all
    with Decoded show ?thesis by (simp add: audio_finish_def start_calls_Nil)
  next
    case (Ended src)
    then show ?thesis by (simp add: start_calls_Nil)
  qed
  show "nextStartTime (fst (do_step x s)) = latest (nextStartTime s) (reading (Handler x))"
  proof (cases x)
    case (Arrives m now)
    with assms(2) have "nextStartTime (fst (receive m s)) = nextStartTime s"
      by (simp add: receive_clock)
    with do_step_arrives_clock [OF assms(1), of m now] Arrives show ?thesis
      by (simp del: do_step.simps reading.simps)
  next
    case (Decoded dec src)
    with assms(3) have "dec = None" by (cases dec) simp_all
    with Decoded show ?thesis by (simp add: audio_finish_def latest_Nil)
  next
    case (Ended src)
    then show ?thesis by (simp add: on_ended_def latest_Nil)
  qed
qed

lemma calm_happen:
  assumes "outputAudioContext s = Some ctx" "calm h"
  shows "outputAudioContext (fst (happen h s)) = Some ctx \<and>
         start_calls (snd (happen h s)) = [] \<and>
         nextStartTime (fst (happen h s)) = latest (nextStartTime s) (reading h)"
proof (cases h)
  case (Handler x)
  with assms(2) have quiet: "\<not> interrupts x" "delivered x = []" by simp_all
  from calm_step [OF assms(1) quiet] assms(1) Handler show ?thesis
    by (simp add: do_step_context del: do_step.simps reading.simps)
next
  case (Opens node processor)
  with assms(1) show ?thesis
    by (simp add: on_open_def start_calls_def latest_Nil split: option.splits)
next
  case (Errs msg)
  with assms(1) show ?thesis by (simp add: on_error_def start_calls_def latest_Nil)
next
  case Closes
  with assms(2) show ?thesis by simp
next
  case Stops
  with assms(2) show ?thesis by simp
next
  case Starts
  with assms(1) show ?thesis by (simp add: start_calls_def latest_Nil)
next
  case (Acquires env)
  with assms(2) show ?thesis by simp
next
  case (Connects r)
  with assms(2) obtain sess where "r = Inr sess" by (cases r) simp_all
  with Connects assms(1) show ?thesis
    by (simp add: startSession_finish_def start_calls_Nil latest_Nil)
qed

lemma calm_happen_all:
  assumes "outputAudioContext s = Some ctx" "list_all calm hs"
  shows "outputAudioContext (fst (happen_all hs s)) = Some ctx \<and>
         start_calls (snd (happen_all hs s)) = [] \<and>
         nextStartTime (fst (happen_all hs s)) =
           latest (nextStartTime s) (concat (map reading hs))"
  using assms
proof (induction hs arbitrary: s)
  case Nil
  then show ?case by (simp add: start_calls_Nil latest_Nil)
next
  case (Cons h hs)
  from Cons.prems have one: "calm h" and rest: "list_all calm hs" by simp_all
  note step = calm_happen [OF Cons.prems(1) one]
  from step have ctx: "outputAudioContext (fst (happen h s)) = Some ctx" by blast
  from Cons.IH [OF ctx rest] step show ?case
    by (simp add: happen_all_Cons_fst happen_all_Cons_snd start_calls_append latest_append
        del: happen_all.simps)
qed

lemma interruption_step:
  assumes "content_flag interrupted m" "outputAudioContext s = Some ctx"
  shows "stop_calls (snd (do_step (Arrives m now) s)) = outputSources s"
    and "outputSources (fst (do_step (Arrives m now) s)) = []"
    and "nextStartTime (fst (do_step (Arrives m now) s)) =
           latest 0 (reading (Handler (Arrives m now)))"
    and "outputAudioContext (fst (do_step (Arrives m now) s)) = Some ctx"
proof -
  show "stop_calls (snd (do_step (Arrives m now) s)) = outputSources s"
    using assms(1) by (simp add: split_def Let_def receive_stop_calls)
  show "outputSources (fst (do_step (Arrives m now) s)) = []"
    using assms(1) by (simp add: split_def Let_def audio_begin_snd receive_sources)
  show "nextStartTime (fst (do_step (Arrives m now) s)) =
           latest 0 (reading (Handler (Arrives m now)))"
    using do_step_arrives_clock [OF assms(2), of m now] assms(1) by (simp add: receive_clock)
  show "outputAudioContext (fst (do_step (Arrives m now) s)) = Some ctx"
    using assms(2) by (simp only: do_step_context)
qed

text \<open>
  Claim C2, as the code has it. A message with the interruption flag stops every source of
  the live set, leaves the set empty and resets the clock to zero. The next unit started
  afterwards, with the output context open and nothing but calm happenings in between,
  starts at the largest of zero and the clock readings of the payloads that have arrived
  since the interruption, that of the interruption message included: at the larger of
  zero and the current time for a chunk that arrives after the interruption, at zero for
  a chunk whose decode was pending when the interruption was handled.
\<close>

theorem interruption_resets_playback:
  assumes "content_flag interrupted m" "outputAudioContext s = Some ctx" "list_all calm hs"
  shows "stop_calls (snd (happen (Handler (Arrives m now)) s)) = outputSources s \<and>
         outputSources (fst (happen (Handler (Arrives m now)) s)) = [] \<and>
         nextStartTime (fst (receive m s)) = 0 \<and>
         start_calls (snd (happen_all
             (Handler (Arrives m now) # hs @ [Handler (Decoded (Some buf) src)]) s)) =
           [(src, latest 0 (concat (map reading (Handler (Arrives m now) # hs))))]"
proof -
  let ?s1 = "fst (happen (Handler (Arrives m now)) s)"
  let ?s2 = "fst (happen_all hs ?s1)"
  note first = interruption_step [OF assms(1,2), of now]
  have ctx1: "outputAudioContext ?s1 = Some ctx"
    using first(4) by simp
  note mid = calm_happen_all [OF ctx1 assms(3)]
  from mid have ctx2: "outputAudioContext ?s2 = Some ctx" by blast
  have clock2: "nextStartTime ?s2 = latest 0 (concat (map reading (Handler (Arrives m now) # hs)))"
    using mid first(3) by (simp add: latest_append del: reading.simps do_step.simps)
  have last: "start_calls (snd (happen (Handler (Decoded (Some buf) src)) ?s2)) =
      [(src, nextStartTime ?s2)]"
    using ctx2 by (simp add: audio_finish_def start_calls_def)
  have "start_calls (snd (happen_all
             (Handler (Arrives m now) # hs @ [Handler (Decoded (Some buf) src)]) s)) =
      start_calls (snd (happen (Handler (Arrives m now)) s)) @
      start_calls (snd (happen_all hs ?s1)) @
      start_calls (snd (happen (Handler (Decoded (Some buf) src)) ?s2))"
    by (simp add: happen_all_Cons_snd happen_all_Cons_fst happen_all_append_snd
        happen_all_append_fst start_calls_append start_calls_Nil
        del: happen_all.simps happen.simps)
      (simp add: split_def Let_def start_calls_Nil del: happen.simps)
  also have "\<dots> = [(src, latest 0 (concat (map reading (Handler (Arrives m now) # hs))))]"
    using mid last clock2
    by (simp add: do_step_start_calls_arrives del: reading.simps do_step.simps happen_all.simps)
  finally have next_unit: "start_calls (snd (happen_all
             (Handler (Arrives m now) # hs @ [Handler (Decoded (Some buf) src)]) s)) =
           [(src, latest 0 (concat (map reading (Handler (Arrives m now) # hs))))]" .
  have "nextStartTime (fst (receive m s)) = 0"
    using assms(1) by (simp add: receive_clock)
  with first(1,2) next_unit show ?thesis
    by simp
qed

theorem interruption_resets_playback_witness:
  "content_flag interrupted interruption_message \<and>
   outputAudioContext running = Some 3 \<and>
   list_all calm
     [Handler (Ended 10), Opens 6 7, Handler (Arrives (audio_message ''BBBB'') 7)] \<and>
   stop_calls (snd (happen (Handler (Arrives interruption_message 6)) running)) = [10, 11] \<and>
   outputSources (fst (happen (Handler (Arrives interruption_message 6)) running)) = [] \<and>
   nextStartTime (fst (receive interruption_message running)) = 0 \<and>
   start_calls (snd (happen_all
     (Handler (Arrives interruption_message 6) #
      [Handler (Ended 10), Opens 6 7, Handler (Arrives (audio_message ''BBBB'') 7)] @
      [Handler (Decoded (Some \<lparr>frames = 24000, sampleRate = 24000\<rparr>) 12)])
     running)) = [(12, 7)]"
proof -
  let ?hs = "[Handler (Ended 10), Opens 6 7, Handler (Arrives (audio_message ''BBBB'') 7)]"
  have h1: "content_flag interrupted interruption_message"
    by (simp add: interruption_message_def with_content_def no_content_def content_flag_def)
  have h2: "outputAudioContext running = Some 3"
    by (simp add: running_def)
  have h3: "list_all calm ?hs"
    by (simp add: audio_message_def with_content_def no_content_def content_flag_def)
  have readings: "concat (map reading (Handler (Arrives interruption_message 6) # ?hs)) = [7]"
    by (simp add: has_payload_def base64Audio_def content_field_def interruption_message_def
        audio_message_def with_content_def no_content_def)
  have live: "outputSources running = [10, 11]"
    by (simp add: running_def initial_def)
  note inst = interruption_resets_playback [OF h1 h2 h3, of 6
      "\<lparr>frames = 24000, sampleRate = 24000\<rparr>" 12]
  from inst have "stop_calls (snd (happen (Handler (Arrives interruption_message 6)) running)) =
      [10, 11]"
    by (simp only: live)
  moreover from inst have "start_calls (snd (happen_all
     (Handler (Arrives interruption_message 6) # ?hs @
      [Handler (Decoded (Some \<lparr>frames = 24000, sampleRate = 24000\<rparr>) 12)])
     running)) = [(12, 7)]"
    by (simp only: readings) (simp add: latest_def)
  ultimately show ?thesis
    using h1 h2 h3 inst by blast
qed

text \<open>The claim as stated fails: a chunk arrives at clock time 8, the interruption is
  handled while the chunk is decoded, and the chunk is then started at zero.\<close>

theorem interruption_pending_decode_counterexample:
  "content_flag interrupted interruption_message \<and>
   start_calls (snd (happen_all
     [Handler (Arrives (audio_message ''AAAA'') 8),
      Handler (Arrives interruption_message 8),
      Handler (Decoded (Some \<lparr>frames = 24000, sampleRate = 24000\<rparr>) 12)]
     running)) = [(12, 0)] \<and>
   (0 :: real) \<noteq> max 0 8 \<and>
   outputSources (fst (happen_all
     [Handler (Arrives (audio_message ''AAAA'') 8),
      Handler (Arrives interruption_message 8),
      Handler (Decoded (Some \<lparr>frames = 24000, sampleRate = 24000\<rparr>) 12)]
     running)) = [12]"
  by (simp add: start_calls_def running_def initial_def interruption_message_def
      audio_message_def with_content_def no_content_def receive_def
      on_inputTranscription_def on_outputTranscription_def on_turnComplete_def
      on_interrupted_def content_field_def content_flag_def audio_begin_def base64Audio_def
      audio_finish_def set_add_def set_delete_def)

end
